theory Spec2Isabelle
  imports Main
begin

section \<open>The service-lifecycle orchestrator of the Electron main process\<close>

text \<open>
  This theory embeds the class \<open>CovenantrixApp\<close> of the Electron main process
  (\<open>main.js\<close>, current revision: the one with \<open>autoStartAndConnect\<close>) and the two
  IPC handlers \<open>api-call\<close> and \<open>upload-file\<close>.

  The JavaScript is written against mutable fields and an outside world (HTTP, the file
  system, child processes, dialogs, the console). In the embedding
  \<^item> the fields of the object and the world's bookkeeping are one record \<open>state\<close>,
    passed through every function and returned updated;
  \<^item> everything the code does to the world is appended, in program order, to the list
    \<open>effects\<close> of the state;
  \<^item> everything the world answers (HTTP outcomes, file existence, what \<open>spawn\<close> does,
    the button pressed in a dialog, what the \<open>axios\<close> library refuses) is read from a
    record \<open>env\<close>;
  \<^item> a JavaScript exception is a value of \<open>js_error\<close>, and each \<open>try\<close>/\<open>catch\<close> is a
    case distinction at the place of the \<open>catch\<close>;
  \<^item> each \<open>async\<close> function is embedded twice. The functions named after the source
    (\<open>autoStartAndConnect\<close>, \<open>connectToExistingService\<close>, ...) run from call to return
    against the answers of the environment: they are the cycle when nothing else
    happens meanwhile. The machine \<open>step\<close> cuts the same code at every \<open>await\<close> that
    waits for the outside (an HTTP request, the timer, the dialog): what runs up to the
    \<open>await\<close> leaves a \<open>task\<close> in \<open>pending\<close>, and what runs after it is \<open>settle\<close>. Between
    two such pieces any event handler and any other pending task may run, in any order.
    An \<open>await\<close> of \<open>startPythonService\<close>, which itself waits for nothing, lets no event
    in, so a launch is one piece.
\<close>

subsection \<open>Values\<close>

text \<open>
  A path is the list of its segments: \<open>path.join\<close> appends segments, \<open>path.dirname\<close>
  drops the last one, and \<open>'..'\<close> drops one as well.
\<close>

type_synonym path = "string list"

type_synonym pid = nat

datatype platform = Win32 | Darwin | OtherPlatform

text \<open>Values that cross the IPC boundary or come back from the backend.\<close>

datatype js_value =
    JNull
  | JUndefined
  | JBool bool
  | JNum int
  | JNaN
  | JStr string
  | JObj "(string \<times> js_value) list"
  | JArr "js_value list"

text \<open>JavaScript's truthiness, as tested by \<open>if (data)\<close>.\<close>

fun truthy :: "js_value \<Rightarrow> bool" where
  "truthy JNull = False"
| "truthy JUndefined = False"
| "truthy (JBool b) = b"
| "truthy (JNum n) = (n \<noteq> 0)"
| "truthy JNaN = False"
| "truthy (JStr s) = (s \<noteq> [])"
| "truthy (JObj kvs) = True"
| "truthy (JArr vs) = True"

text \<open>
  The outcome of one \<open>axios\<close> request: the promise resolves with a status and a body,
  or rejects with a message and, when the server answered, the response status.
\<close>

datatype axios_outcome =
    Resolved nat js_value
  | Rejected string "nat option"

text \<open>
  The pieces of a template literal or of a \<open>console.log\<close> argument list, kept apart
  instead of being rendered to one string.
\<close>

datatype part =
    S string
  | P path
  | B bool
  | ExitCode "int option"
  | ExitSignal "string option"

datatype js_error =
    Error "part list"
  | TypeError string
  | SpawnError path
  | AxiosError string "nat option"

text \<open>The \<open>config\<close> object handed to \<open>axios\<close> by the \<open>api-call\<close> handler.\<close>

record axios_config =
  cfg_method :: string
  cfg_url :: string
  cfg_timeout :: nat
  cfg_params :: "js_value option"
  cfg_data :: "js_value option"

text \<open>The multipart form of an upload: the \<open>file\<close> stream and the \<open>folder_id\<close> field.\<close>

record form_data =
  form_file :: path
  form_folder_id :: string

text \<open>
  What the code does to the world, one constructor per kind of call. A call that is
  awaited (a request, the timer, the recovery dialog) is entered when it settles, with
  its outcome. \<open>Spawn\<close> is a \<open>spawn\<close> that returned the handle of a running child,
  \<open>SpawnFailed\<close> one that returned a handle with no process behind it, \<open>SpawnThrew\<close>
  one that threw.
\<close>

datatype effect =
    ConsoleLog "part list"
  | ConsoleError "part list" "js_error option"
  | AxiosGet string nat axios_outcome
  | AxiosRequest axios_config axios_outcome
  | AxiosPost string form_data nat axios_outcome
  | Sleep nat
  | Send string string
  | Spawn path "path list" path pid
  | SpawnFailed path "path list" path pid
  | SpawnThrew path "path list" path
  | Kill pid
  | ShowMessageBox nat
  | ShowErrorBox string

text \<open>The structured result returned to the renderer by the two IPC handlers.\<close>

datatype ipc_result =
    Success js_value
  | Failure "part list" "nat option"

text \<open>
  What \<open>spawn\<close> of Node's \<open>child_process\<close> can do. It returns the handle of a running
  child; or, when the operating system refuses with \<open>EACCES\<close>, \<open>ENOENT\<close> or \<open>EAGAIN\<close>, a
  handle with no process and with its streams, whose \<open>error\<close> event follows; or, with
  \<open>EMFILE\<close> or \<open>ENFILE\<close>, a handle with no process and without streams, so that the
  \<open>.stdout.on\<close> that follows throws; or it throws itself.
\<close>

datatype spawn_outcome = Started | NoProcess | NoStreams | Throws

text \<open>
  The places where the code waits for the outside, each with what is needed to go on:
  the pre-check of \<open>autoStartAndConnect\<close>; a health request and the wait of the probe
  loop, with the attempts that remain after this one and with what follows the loop;
  the recovery dialog; the requests of the two IPC handlers. After the loop,
  \<open>autoStartAndConnect\<close> shows the recovery dialog when the result is \<open>false\<close>, and
  \<open>showServiceConnectionOptions\<close> drops the result.
\<close>

datatype after_connect = ThenRecover | ThenReturn

datatype task =
    AwaitPrecheck
  | AwaitProbe nat after_connect
  | AwaitSleep nat after_connect
  | AwaitDialog
  | AwaitApi axios_config
  | AwaitUpload path string

text \<open>What the outside answers: an HTTP outcome, the timer, the button of the dialog.\<close>

datatype answer = Answered axios_outcome | Elapsed | Pressed nat

subsection \<open>State and environment\<close>

text \<open>
  \<open>mainWindow\<close>, \<open>servicePort\<close>, \<open>serviceUrl\<close> and \<open>pythonProcess\<close> are the fields of
  \<open>CovenantrixApp\<close>; \<open>null\<close> is \<open>None\<close>. The three counters number the HTTP requests,
  the \<open>spawn\<close> calls and the recovery dialogs issued so far, so that the environment
  can answer the n-th of each; the n-th \<open>spawn\<close> call yields the handle \<open>n\<close>.
  \<open>pending\<close> holds the tasks of the machine that wait for an answer.

  In the environment, \<open>unreadable\<close> gives the error with which opening an existing
  file for reading fails (\<open>None\<close> when it can be read), and \<open>axiosRejects\<close> the message
  with which the \<open>axios\<close> library refuses a request configuration before it sends
  anything (\<open>None\<close> when it goes on to send): \<open>axios\<close> is not part of the repository, and
  what it refuses depends on its version.
\<close>

record state =
  mainWindow :: "nat option"
  servicePort :: nat
  serviceUrl :: string
  pythonProcess :: "pid option"
  effects :: "effect list"
  requests :: nat
  spawned :: nat
  dialogs :: nat
  pending :: "task list"

record env =
  isPackaged :: bool
  platform :: platform
  resourcesPath :: path
  dirname :: path
  existsSync :: "path \<Rightarrow> bool"
  http :: "nat \<Rightarrow> axios_outcome"
  spawnOutcome :: "nat \<Rightarrow> spawn_outcome"
  dialogChoice :: "nat \<Rightarrow> nat"
  unreadable :: "path \<Rightarrow> string option"
  axiosRejects :: "axios_config \<Rightarrow> string option"

text \<open>The constructor of \<open>CovenantrixApp\<close>.\<close>

definition init :: state where
  "init = \<lparr> mainWindow = None, servicePort = 8080,
            serviceUrl = ''http://127.0.0.1:8080'', pythonProcess = None,
            effects = [], requests = 0, spawned = 0, dialogs = 0, pending = [] \<rparr>"

subsection \<open>Primitives\<close>

definition emit :: "effect \<Rightarrow> state \<Rightarrow> state" where
  "emit e s = s\<lparr> effects := effects s @ [e] \<rparr>"

text \<open>\<open>await axios.get(url, { timeout })\<close>: the outcome is the environment's.\<close>

definition axios_get :: "env \<Rightarrow> string \<Rightarrow> nat \<Rightarrow> state \<Rightarrow> axios_outcome \<times> state" where
  "axios_get ev url timeout s =
     (let r = http ev (requests s)
      in (r, emit (AxiosGet url timeout r) (s\<lparr> requests := requests s + 1 \<rparr>)))"

text \<open>
  \<open>this.mainWindow.webContents.send(channel, payload)\<close>: reading \<open>webContents\<close> of
  \<open>null\<close> throws a \<open>TypeError\<close>.
\<close>

definition webContents_send :: "string \<Rightarrow> string \<Rightarrow> state \<Rightarrow> js_error + state" where
  "webContents_send channel payload s =
     (case mainWindow s of
        None \<Rightarrow> Inl (TypeError ''Cannot read properties of null (reading webContents)'')
      | Some w \<Rightarrow> Inr (emit (Send channel payload) s))"

text \<open>
  \<open>this.pythonProcess = spawn(command, args, { cwd, stdio })\<close>, together with the
  registration of the listeners that follows it (\<open>stdout\<close>, \<open>stderr\<close>, \<open>error\<close>, \<open>exit\<close>;
  the \<open>exit\<close> and \<open>error\<close> listeners are the handlers further down). When \<open>spawn\<close>
  throws, the assignment does not happen. When it returns a handle, the handle is
  assigned, with or without a process behind it; without streams the registration
  throws a \<open>TypeError\<close> after the assignment.
\<close>

definition spawn_child :: "env \<Rightarrow> path \<Rightarrow> path list \<Rightarrow> path \<Rightarrow> state \<Rightarrow> (js_error + pid) \<times> state" where
  "spawn_child ev command args cwd s =
     (let k = spawned s; s1 = s\<lparr> spawned := k + 1 \<rparr>
      in case spawnOutcome ev k of
           Throws \<Rightarrow> (Inl (SpawnError command), emit (SpawnThrew command args cwd) s1)
         | NoStreams \<Rightarrow>
             (Inl (TypeError ''Cannot read properties of undefined (reading on)''),
              emit (SpawnFailed command args cwd k) (s1\<lparr> pythonProcess := Some k \<rparr>))
         | NoProcess \<Rightarrow>
             (Inr k, emit (SpawnFailed command args cwd k) (s1\<lparr> pythonProcess := Some k \<rparr>))
         | Started \<Rightarrow>
             (Inr k, emit (Spawn command args cwd k) (s1\<lparr> pythonProcess := Some k \<rparr>)))"

definition path_join :: "path \<Rightarrow> string list \<Rightarrow> path" where
  "path_join p segs = p @ segs"

definition path_dirname :: "path \<Rightarrow> path" where
  "path_dirname p = butlast p"

text \<open>\<open>path.join(__dirname, '../../')\<close>.\<close>

definition projectRoot :: "env \<Rightarrow> path" where
  "projectRoot ev = butlast (butlast (dirname ev))"

subsection \<open>ArtifactLocator: \<open>getPythonExecutablePath\<close>\<close>

definition executableName :: "env \<Rightarrow> string" where
  "executableName ev =
     (if platform ev = Win32 then ''covenantrix-service.exe'' else ''covenantrix-service'')"

text \<open>
  The value of the local variable \<open>executablePath\<close>: under the bundled resources of a
  packaged application (the two platform branches of the source compute the same path),
  under \<open>python-dist\<close> of the project root in development.
\<close>

definition executablePath :: "env \<Rightarrow> path" where
  "executablePath ev =
     (if isPackaged ev then
        (if platform ev = Darwin
         then path_join (resourcesPath ev) [''python-service'', executableName ev]
         else path_join (resourcesPath ev) [''python-service'', executableName ev])
      else path_join (projectRoot ev) [''python-dist'', executableName ev])"

text \<open>Only the development branch asks the file system; \<open>null\<close> is \<open>None\<close>.\<close>

definition getPythonExecutablePath :: "env \<Rightarrow> state \<Rightarrow> path option \<times> state" where
  "getPythonExecutablePath ev s =
     (let s0 = emit (ConsoleLog [S ''App packaged: '', B (isPackaged ev)]) s
      in if isPackaged ev then
           (Some (executablePath ev),
            emit (ConsoleLog [S ''Target executable path: '', P (executablePath ev)]) s0)
         else
           (let s1 = emit (ConsoleLog [S ''Development mode - looking in: '', P (executablePath ev)]) s0
            in if \<not> existsSync ev (executablePath ev) then
                 (None, emit (ConsoleLog
                    [S ''Bundled executable not found in development, will try venv fallback'']) s1)
               else
                 (Some (executablePath ev),
                  emit (ConsoleLog [S ''Target executable path: '', P (executablePath ev)]) s1)))"

subsection \<open>ProcessSupervisor: launching and terminating\<close>

definition venvPython :: "env \<Rightarrow> path" where
  "venvPython ev =
     path_join (projectRoot ev)
       [''venv'', if platform ev = Win32 then ''Scripts'' else ''bin'',
        if platform ev = Win32 then ''python.exe'' else ''python'']"

definition serviceScript :: "env \<Rightarrow> path" where
  "serviceScript ev = path_join (projectRoot ev) [''core-rag-service'', ''service_main.py'']"

definition startPythonServiceVenvFallback :: "env \<Rightarrow> state \<Rightarrow> bool \<times> state" where
  "startPythonServiceVenvFallback ev s =
     (let s0 = emit (ConsoleLog [S ''Falling back to venv Python service for development...'']) s;
          s1 = emit (ConsoleLog [S ''Development fallback - using: '', P (venvPython ev)]) s0;
          s2 = emit (ConsoleLog [S ''Service script: '', P (serviceScript ev)]) s1;
          caught = (\<lambda>e t. (False, emit (ConsoleError [S ''Failed to start venv Python service:''] (Some e)) t))
      in if \<not> existsSync ev (venvPython ev) then
           caught (Error [S ''Venv Python executable not found at: '', P (venvPython ev)]) s2
         else if \<not> existsSync ev (serviceScript ev) then
           caught (Error [S ''Service script not found at: '', P (serviceScript ev)]) s2
         else
           (case spawn_child ev (venvPython ev) [serviceScript ev]
                   (path_join (projectRoot ev) [''core-rag-service'']) s2 of
              (Inl e, s3) \<Rightarrow> caught e s3
            | (Inr k, s3) \<Rightarrow>
                (True, emit (ConsoleLog [S ''Venv Python service process started'']) s3)))"

definition startPythonService :: "env \<Rightarrow> state \<Rightarrow> bool \<times> state" where
  "startPythonService ev s =
     (let s0 = emit (ConsoleLog [S ''Starting bundled Python service automatically...'']) s;
          caught = (\<lambda>e t. (False, emit (ConsoleError [S ''Failed to start bundled Python service:''] (Some e)) t))
      in case getPythonExecutablePath ev s0 of
           (None, s1) \<Rightarrow>
             startPythonServiceVenvFallback ev
               (emit (ConsoleLog [S ''Using venv fallback for development'']) s1)
         | (Some executable, s1) \<Rightarrow>
             (let s2 = emit (ConsoleLog [S ''Using bundled Python executable: '', P executable]) s1
              in if \<not> existsSync ev executable then
                   caught (Error [S ''Python executable not found at: '', P executable]) s2
                 else
                   (case spawn_child ev executable [] (path_dirname executable) s2 of
                      (Inl e, s3) \<Rightarrow> caught e s3
                    | (Inr k, s3) \<Rightarrow>
                        (True, emit (ConsoleLog [S ''Bundled Python service process started'']) s3))))"

text \<open>The \<open>exit\<close> listeners registered by the two launch functions.\<close>

definition pythonProcess_on_exit :: "int option \<Rightarrow> string option \<Rightarrow> state \<Rightarrow> state" where
  "pythonProcess_on_exit code signal s =
     emit (ConsoleLog [S ''Python Service exited with code '', ExitCode code,
                       S '' and signal '', ExitSignal signal]) s"

definition pythonProcess_on_exit_venv :: "int option \<Rightarrow> string option \<Rightarrow> state \<Rightarrow> state" where
  "pythonProcess_on_exit_venv code signal s =
     emit (ConsoleLog [S ''Python Service (venv) exited with code '', ExitCode code,
                       S '' and signal '', ExitSignal signal]) s"

text \<open>The \<open>error\<close> listeners registered by the two launch functions.\<close>

definition pythonProcess_on_error :: "js_error \<Rightarrow> state \<Rightarrow> state" where
  "pythonProcess_on_error e s =
     emit (ConsoleError [S ''Python Service Process Error:''] (Some e)) s"

definition pythonProcess_on_error_venv :: "js_error \<Rightarrow> state \<Rightarrow> state" where
  "pythonProcess_on_error_venv e s =
     emit (ConsoleError [S ''Python Service Process Error (venv):''] (Some e)) s"

text \<open>
  \<open>kill()\<close> is called on whatever handle is held; on a handle with no process, or whose
  process has exited, it sends no signal.
\<close>

definition leaving_it_running :: effect where
  "leaving_it_running =
     ConsoleLog [S ''Disconnecting from Python service (leaving it running)'']"

definition disconnectFromService :: "state \<Rightarrow> state" where
  "disconnectFromService s =
     (case pythonProcess s of
        Some p \<Rightarrow>
          (emit (Kill p) (emit (ConsoleLog [S ''Stopping Python service...'']) s))
            \<lparr> pythonProcess := None \<rparr>
      | None \<Rightarrow> emit leaving_it_running s)"

subsection \<open>HealthProbe: \<open>connectToExistingService\<close>\<close>

text \<open>
  The body of \<open>for (let i = 0; i < maxAttempts; i++)\<close>, by recursion on the attempts
  that remain. A response that resolves with a status other than 200 goes to the next
  attempt at once; the wait of 1000 ms is in the \<open>catch\<close> block only, which is entered
  when the request rejects and when \<open>send\<close> throws.
\<close>

fun connect_attempts :: "env \<Rightarrow> nat \<Rightarrow> state \<Rightarrow> bool \<times> state" where
  "connect_attempts ev 0 s = (False, s)"
| "connect_attempts ev (Suc n) s =
     (case axios_get ev (serviceUrl s @ ''/health'') 1000 s of
        (Resolved status body, s1) \<Rightarrow>
          if status = 200 then
            (let s2 = emit (ConsoleLog [S ''Connected to Python service successfully!'']) s1
             in case webContents_send ''service-ready'' (serviceUrl s2) s2 of
                  Inr s3 \<Rightarrow> (True, s3)
                | Inl e \<Rightarrow> connect_attempts ev n (emit (Sleep 1000) s2))
          else connect_attempts ev n s1
      | (Rejected msg st, s1) \<Rightarrow> connect_attempts ev n (emit (Sleep 1000) s1))"

definition connectToExistingService :: "env \<Rightarrow> nat \<Rightarrow> state \<Rightarrow> bool \<times> state" where
  "connectToExistingService ev maxAttempts s =
     (case connect_attempts ev maxAttempts
             (emit (ConsoleLog [S ''Connecting to existing Python service at 127.0.0.1:8080...'']) s) of
        (True, s1) \<Rightarrow> (True, s1)
      | (False, s1) \<Rightarrow>
          (False, emit (ConsoleError [S ''Could not connect to Python service''] None) s1))"

subsection \<open>ConnectionOrchestrator\<close>

text \<open>\<open>dialog.showErrorBox(title, content)\<close>; the effect keeps the title.\<close>

definition showServiceError :: "env \<Rightarrow> state \<Rightarrow> state" where
  "showServiceError ev s =
     (if isPackaged ev then emit (ShowErrorBox ''Service Startup Failed'') s
      else emit (ShowErrorBox ''Development Service Error'') s)"

text \<open>
  The recovery dialog with its three buttons. The results of \<open>startPythonService\<close> and
  of \<open>connectToExistingService(10)\<close> are dropped, as in the source.
\<close>

definition showServiceConnectionOptions :: "env \<Rightarrow> state \<Rightarrow> state" where
  "showServiceConnectionOptions ev s =
     (let response = dialogChoice ev (dialogs s);
          s0 = emit (ShowMessageBox response) (s\<lparr> dialogs := dialogs s + 1 \<rparr>)
      in if response = 0 then snd (startPythonService ev s0)
         else if response = 1 then showServiceError ev s0
         else if response = 2 then snd (connectToExistingService ev 10 s0)
         else s0)"

text \<open>The part of \<open>autoStartAndConnect\<close> after the pre-check.\<close>

definition start_then_connect :: "env \<Rightarrow> state \<Rightarrow> state" where
  "start_then_connect ev s =
     (case startPythonService ev s of
        (False, s1) \<Rightarrow>
          showServiceConnectionOptions ev
            (emit (ConsoleError [S ''Failed to start Python service automatically''] None) s1)
      | (True, s1) \<Rightarrow>
          (case connectToExistingService ev 20 s1 of
             (False, s2) \<Rightarrow>
               showServiceConnectionOptions ev
                 (emit (ConsoleError [S ''Failed to connect after starting service''] None) s2)
           | (True, s2) \<Rightarrow> s2))"

definition autoStartAndConnect :: "env \<Rightarrow> state \<Rightarrow> state" where
  "autoStartAndConnect ev s =
     (let s0 = emit (ConsoleLog [S ''Auto-starting Covenantrix service...'']) s;
          not_running = (\<lambda>t. start_then_connect ev
             (emit (ConsoleLog [S ''Service not running, starting automatically...'']) t))
      in case axios_get ev (serviceUrl s0 @ ''/health'') 2000 s0 of
           (Resolved status body, s1) \<Rightarrow>
             if status = 200 then
               (let s2 = emit (ConsoleLog [S ''Service already running, connecting...'']) s1
                in case webContents_send ''service-ready'' (serviceUrl s2) s2 of
                     Inr s3 \<Rightarrow> s3
                   | Inl e \<Rightarrow> not_running s2)
             else start_then_connect ev s1
         | (Rejected msg st, s1) \<Rightarrow> not_running s1)"

subsection \<open>RequestBridge: the IPC handlers\<close>

text \<open>The \<open>config\<close> object as the handler builds it before calling \<open>axios\<close>.\<close>

definition api_config :: "string \<Rightarrow> string \<Rightarrow> js_value \<Rightarrow> state \<Rightarrow> axios_config" where
  "api_config method endpoint data s =
     (let config = \<lparr> cfg_method = method, cfg_url = serviceUrl s @ endpoint,
                      cfg_timeout = 30000, cfg_params = None, cfg_data = None \<rparr>
      in if truthy data then
           (if method = ''GET'' then config\<lparr> cfg_params := Some data \<rparr>
            else config\<lparr> cfg_data := Some data \<rparr>)
         else config)"

text \<open>
  What follows \<open>await axios(config)\<close>: the library either refuses the configuration,
  and then nothing is sent and the promise rejects with its message, or sends the
  request, whose outcome is \<open>r\<close>.
\<close>

definition api_settle :: "env \<Rightarrow> axios_config \<Rightarrow> axios_outcome \<Rightarrow> state \<Rightarrow> ipc_result \<times> state" where
  "api_settle ev config r s =
     (case axiosRejects ev config of
        Some msg \<Rightarrow>
          (Failure [S msg] None,
           emit (ConsoleError [S ''API call failed:''] (Some (Error [S msg]))) s)
      | None \<Rightarrow>
          (let s1 = emit (AxiosRequest config r) (s\<lparr> requests := requests s + 1 \<rparr>)
           in case r of
                Resolved status body \<Rightarrow> (Success body, s1)
              | Rejected msg st \<Rightarrow>
                  (Failure [S msg] st,
                   emit (ConsoleError [S ''API call failed:''] (Some (AxiosError msg st))) s1)))"

definition api_call :: "env \<Rightarrow> string \<Rightarrow> string \<Rightarrow> js_value \<Rightarrow> state \<Rightarrow> ipc_result \<times> state" where
  "api_call ev method endpoint data s =
     api_settle ev (api_config method endpoint data s) (http ev (requests s)) s"

text \<open>
  \<open>fs.createReadStream(filePath)\<close> opens the file only when the stream is read. When
  the file cannot be opened, the stream fails with the error of the file system before
  a request is written, and \<open>axios.post\<close> rejects with that error.
\<close>

definition open_error :: "env \<Rightarrow> path \<Rightarrow> part list option" where
  "open_error ev p =
     (if \<not> existsSync ev p then Some [S ''ENOENT: no such file or directory, open '', P p]
      else case unreadable ev p of
             Some msg \<Rightarrow> Some [S msg, S '', open '', P p]
           | None \<Rightarrow> None)"

text \<open>What follows \<open>await axios.post(url, form, ...)\<close>, the form holding the stream.\<close>

definition upload_settle :: "env \<Rightarrow> path \<Rightarrow> string \<Rightarrow> axios_outcome \<Rightarrow> state \<Rightarrow> ipc_result \<times> state" where
  "upload_settle ev p folder r s =
     (let caught = (\<lambda>msg e t. (Failure msg None, emit (ConsoleError [S ''File upload failed:''] (Some e)) t))
      in case open_error ev p of
           Some msg \<Rightarrow> caught msg (Error msg) s
         | None \<Rightarrow>
             (let form = \<lparr> form_file = p, form_folder_id = folder \<rparr>;
                  s1 = emit (AxiosPost (serviceUrl s @ ''/api/documents/upload'') form 60000 r)
                         (s\<lparr> requests := requests s + 1 \<rparr>)
              in case r of
                   Resolved status body \<Rightarrow> (Success body, s1)
                 | Rejected msg st \<Rightarrow> caught [S msg] (AxiosError msg st) s1))"

text \<open>
  \<open>filePath\<close> is \<open>None\<close> when the renderer passes \<open>null\<close> or \<open>undefined\<close> (for which
  \<open>fs.createReadStream\<close> throws at once); \<open>folderId\<close> is \<open>None\<close> when it is \<open>undefined\<close>,
  and the parameter default \<open>'default'\<close> applies.
\<close>

definition folder_of :: "string option \<Rightarrow> string" where
  "folder_of folderId = (case folderId of None \<Rightarrow> ''default'' | Some f \<Rightarrow> f)"

definition upload_refused :: "state \<Rightarrow> ipc_result \<times> state" where
  "upload_refused s =
     (Failure [S ''The path argument must be of type string''] None,
      emit (ConsoleError [S ''File upload failed:'']
              (Some (TypeError ''The path argument must be of type string''))) s)"

definition upload_file :: "env \<Rightarrow> path option \<Rightarrow> string option \<Rightarrow> state \<Rightarrow> ipc_result \<times> state" where
  "upload_file ev filePath folderId s =
     (case filePath of
        None \<Rightarrow> upload_refused s
      | Some p \<Rightarrow> upload_settle ev p (folder_of folderId) (http ev (requests s)) s)"

subsection \<open>The machine: the same code, cut at its awaits\<close>

text \<open>
  An asynchronous function runs up to its next \<open>await\<close> of a call that waits for the
  outside: a request of \<open>axios\<close>, the timer between two probes, the dialog box. What is
  left of it is kept as a task in \<open>pending\<close> and runs when the answer arrives; until
  then any other event may be handled, so that every interleaving of the handlers with
  the continuations is an execution. \<open>startPythonService\<close> has no \<open>await\<close> in its
  body: it is run in one piece with the code that awaits it. An awaited call is entered
  in the trace when it settles.
\<close>

definition suspend :: "task \<Rightarrow> state \<Rightarrow> state" where
  "suspend task s = s\<lparr> pending := pending s @ [task] \<rparr>"

text \<open>
  \<open>showServiceConnectionOptions\<close> up to \<open>await dialog.showMessageBox\<close>.
\<close>

definition open_dialog :: "state \<Rightarrow> state" where
  "open_dialog s = suspend AwaitDialog s"

text \<open>
  The end of \<open>connectToExistingService\<close> when the loop is exhausted, and what its caller
  does with the result \<open>false\<close>.
\<close>

definition connect_failed :: "after_connect \<Rightarrow> state \<Rightarrow> state" where
  "connect_failed k s =
     (let s1 = emit (ConsoleError [S ''Could not connect to Python service''] None) s
      in case k of
           ThenRecover \<Rightarrow>
             open_dialog (emit (ConsoleError [S ''Failed to connect after starting service''] None) s1)
         | ThenReturn \<Rightarrow> s1)"

text \<open>
  The head of \<open>for (let i = 0; i < maxAttempts; i++)\<close> with \<open>n\<close> attempts left: the
  loop ends, or the next health request is issued and awaited.
\<close>

definition connect_next :: "nat \<Rightarrow> after_connect \<Rightarrow> state \<Rightarrow> state" where
  "connect_next n k s =
     (case n of 0 \<Rightarrow> connect_failed k s | Suc m \<Rightarrow> suspend (AwaitProbe m k) s)"

definition connect_begin :: "nat \<Rightarrow> after_connect \<Rightarrow> state \<Rightarrow> state" where
  "connect_begin maxAttempts k s =
     connect_next maxAttempts k
       (emit (ConsoleLog [S ''Connecting to existing Python service at 127.0.0.1:8080...'']) s)"

text \<open>\<open>autoStartAndConnect\<close> after the pre-check, up to its next await.\<close>

definition launch_then_connect :: "env \<Rightarrow> state \<Rightarrow> state" where
  "launch_then_connect ev s =
     (case startPythonService ev s of
        (False, s1) \<Rightarrow>
          open_dialog
            (emit (ConsoleError [S ''Failed to start Python service automatically''] None) s1)
      | (True, s1) \<Rightarrow> connect_begin 20 ThenRecover s1)"

text \<open>
  What runs when an awaited call settles, up to the next await. When the probe loop
  returns \<open>true\<close>, neither caller does anything more.
\<close>

fun settle :: "env \<Rightarrow> task \<Rightarrow> answer \<Rightarrow> state \<Rightarrow> state" where
  "settle ev AwaitPrecheck (Answered r) s =
     (let s1 = emit (AxiosGet (serviceUrl s @ ''/health'') 2000 r) (s\<lparr> requests := requests s + 1 \<rparr>);
          not_running = (\<lambda>t. launch_then_connect ev
             (emit (ConsoleLog [S ''Service not running, starting automatically...'']) t))
      in case r of
           Resolved status body \<Rightarrow>
             if status = 200 then
               (let s2 = emit (ConsoleLog [S ''Service already running, connecting...'']) s1
                in case webContents_send ''service-ready'' (serviceUrl s2) s2 of
                     Inr s3 \<Rightarrow> s3
                   | Inl e \<Rightarrow> not_running s2)
             else launch_then_connect ev s1
         | Rejected msg st \<Rightarrow> not_running s1)"
| "settle ev (AwaitProbe n k) (Answered r) s =
     (let s1 = emit (AxiosGet (serviceUrl s @ ''/health'') 1000 r) (s\<lparr> requests := requests s + 1 \<rparr>)
      in case r of
           Resolved status body \<Rightarrow>
             if status = 200 then
               (let s2 = emit (ConsoleLog [S ''Connected to Python service successfully!'']) s1
                in case webContents_send ''service-ready'' (serviceUrl s2) s2 of
                     Inr s3 \<Rightarrow> s3
                   | Inl e \<Rightarrow> suspend (AwaitSleep n k) s2)
             else connect_next n k s1
         | Rejected msg st \<Rightarrow> suspend (AwaitSleep n k) s1)"
| "settle ev (AwaitSleep n k) Elapsed s = connect_next n k (emit (Sleep 1000) s)"
| "settle ev AwaitDialog (Pressed response) s =
     (let s0 = emit (ShowMessageBox response) (s\<lparr> dialogs := dialogs s + 1 \<rparr>)
      in if response = 0 then snd (startPythonService ev s0)
         else if response = 1 then showServiceError ev s0
         else if response = 2 then connect_begin 10 ThenReturn s0
         else s0)"
| "settle ev (AwaitApi config) (Answered r) s = snd (api_settle ev config r s)"
| "settle ev (AwaitUpload p folder) (Answered r) s = snd (upload_settle ev p folder r s)"
| "settle ev task a s = s"

text \<open>The kind of answer a task waits for.\<close>

fun answers :: "task \<Rightarrow> answer \<Rightarrow> bool" where
  "answers (AwaitSleep n k) Elapsed = True"
| "answers (AwaitSleep n k) a = False"
| "answers AwaitDialog (Pressed response) = True"
| "answers AwaitDialog a = False"
| "answers task (Answered r) = True"
| "answers task a = False"

subsection \<open>Events\<close>

text \<open>
  What can happen to the application: a window is created or becomes ready to show, the
  window is closed, the application disconnects (\<open>window-all-closed\<close>, \<open>before-quit\<close>),
  a child exits or reports an error, the renderer calls one of the two IPC handlers, and
  the \<open>i\<close>-th pending task gets its answer. The \<open>ready-to-show\<close> callback is
  \<open>this.mainWindow.show(); this.autoStartAndConnect()\<close>: when the window is gone, the
  first statement throws and nothing is started; otherwise \<open>autoStartAndConnect\<close> runs
  up to the \<open>await\<close> of its pre-check. Of \<open>createWindow\<close> only the assignment to
  \<open>mainWindow\<close> is kept; loading the page and showing the window leave no trace here.
\<close>

datatype event =
    CreateWindow nat
  | ReadyToShow
  | Closed
  | WindowAllClosed
  | BeforeQuit
  | ChildExit "int option" "string option"
  | ChildExitVenv "int option" "string option"
  | ChildError js_error
  | ChildErrorVenv js_error
  | ApiCall string string js_value
  | UploadFile "path option" "string option"
  | Settle nat answer

fun step :: "env \<Rightarrow> state \<Rightarrow> event \<Rightarrow> state" where
  "step ev s (CreateWindow w) = s\<lparr> mainWindow := Some w \<rparr>"
| "step ev s ReadyToShow =
     (case mainWindow s of
        None \<Rightarrow> s
      | Some w \<Rightarrow>
          suspend AwaitPrecheck (emit (ConsoleLog [S ''Auto-starting Covenantrix service...'']) s))"
| "step ev s Closed = s\<lparr> mainWindow := None \<rparr>"
| "step ev s WindowAllClosed = disconnectFromService s"
| "step ev s BeforeQuit = disconnectFromService s"
| "step ev s (ChildExit code signal) = pythonProcess_on_exit code signal s"
| "step ev s (ChildExitVenv code signal) = pythonProcess_on_exit_venv code signal s"
| "step ev s (ChildError e) = pythonProcess_on_error e s"
| "step ev s (ChildErrorVenv e) = pythonProcess_on_error_venv e s"
| "step ev s (ApiCall method endpoint data) =
     suspend (AwaitApi (api_config method endpoint data s)) s"
| "step ev s (UploadFile filePath folderId) =
     (case filePath of
        None \<Rightarrow> snd (upload_refused s)
      | Some p \<Rightarrow> suspend (AwaitUpload p (folder_of folderId)) s)"
| "step ev s (Settle i a) =
     (if i < length (pending s) \<and> answers (pending s ! i) a
      then settle ev (pending s ! i) a
             (s\<lparr> pending := take i (pending s) @ drop (Suc i) (pending s) \<rparr>)
      else s)"

text \<open>An execution: the events and answers in the order in which they arrive.\<close>

definition run :: "env \<Rightarrow> event list \<Rightarrow> state \<Rightarrow> state" where
  "run ev evs s = foldl (step ev) s evs"

subsection \<open>Reading a trace\<close>

text \<open>
  The source keeps no connection-state variable. Where the design speaks of states, the
  trace shows them: a health request is Probing, a \<open>spawn\<close> is Launching, the ready
  notification sent to the window is Ready, the recovery dialog is Failed.
\<close>

fun kill_of :: "effect \<Rightarrow> pid list" where
  "kill_of (Kill p) = [p]"
| "kill_of e = []"

fun spawn_of :: "effect \<Rightarrow> pid list" where
  "spawn_of (Spawn command args cwd p) = [p]"
| "spawn_of e = []"

fun handle_of :: "effect \<Rightarrow> pid list" where
  "handle_of (Spawn command args cwd p) = [p]"
| "handle_of (SpawnFailed command args cwd p) = [p]"
| "handle_of e = []"

fun is_spawn_attempt :: "effect \<Rightarrow> bool" where
  "is_spawn_attempt (Spawn command args cwd p) = True"
| "is_spawn_attempt (SpawnFailed command args cwd p) = True"
| "is_spawn_attempt (SpawnThrew command args cwd) = True"
| "is_spawn_attempt e = False"

fun is_prompt :: "effect \<Rightarrow> bool" where
  "is_prompt (ShowMessageBox response) = True"
| "is_prompt e = False"

fun is_network :: "effect \<Rightarrow> bool" where
  "is_network (AxiosGet url timeout r) = True"
| "is_network (AxiosRequest config r) = True"
| "is_network (AxiosPost url form timeout r) = True"
| "is_network e = False"

fun is_console :: "effect \<Rightarrow> bool" where
  "is_console (ConsoleLog ps) = True"
| "is_console (ConsoleError ps e) = True"
| "is_console e = False"

text \<open>
  The handles on which \<open>kill()\<close> was called, the children that were started, and the
  handles that \<open>spawn\<close> returned (with or without a child), in the order of the trace.
\<close>

definition handles :: "effect list \<Rightarrow> pid list" where
  "handles t = concat (map handle_of t)"

definition kills :: "effect list \<Rightarrow> pid list" where
  "kills t = concat (map kill_of t)"

definition spawns :: "effect list \<Rightarrow> pid list" where
  "spawns t = concat (map spawn_of t)"

definition spawn_attempts :: "effect list \<Rightarrow> nat" where
  "spawn_attempts t = length (filter is_spawn_attempt t)"

definition prompts :: "effect list \<Rightarrow> nat" where
  "prompts t = length (filter is_prompt t)"

definition non_console :: "effect list \<Rightarrow> effect list" where
  "non_console t = filter (\<lambda>e. \<not> is_console e) t"

definition network :: "effect list \<Rightarrow> effect list" where
  "network t = filter is_network t"

text \<open>The per-attempt timeouts and the waits between attempts that a trace shows.\<close>

fun timeout_of :: "effect \<Rightarrow> nat list" where
  "timeout_of (AxiosGet url timeout r) = [timeout]"
| "timeout_of e = []"

fun sleep_of :: "effect \<Rightarrow> nat list" where
  "sleep_of (Sleep ms) = [ms]"
| "sleep_of e = []"

definition timeouts :: "effect list \<Rightarrow> nat list" where
  "timeouts t = concat (map timeout_of t)"

definition sleeps :: "effect list \<Rightarrow> nat list" where
  "sleeps t = concat (map sleep_of t)"

text \<open>
  The longest a trace of health probes can take, in milliseconds: every request runs
  into its timeout and every wait is served in full.
\<close>

definition budget :: "effect list \<Rightarrow> nat" where
  "budget t = sum_list (timeouts t) + sum_list (sleeps t)"

text \<open>The test \<open>response.status === 200\<close> on the outcome of a health request.\<close>

fun is_ok :: "axios_outcome \<Rightarrow> bool" where
  "is_ok (Resolved status body) = (status = 200)"
| "is_ok (Rejected msg st) = False"

fun is_ready :: "effect \<Rightarrow> bool" where
  "is_ready (Send channel payload) = (channel = ''service-ready'')"
| "is_ready e = False"

text \<open>
  A health probe is fresh when the last thing the code did, console output aside, was a
  health request answered with status 200. A trace justifies its ready notifications
  when each of them is sent while a probe is fresh.
\<close>

fun probe_fresh :: "bool \<Rightarrow> effect \<Rightarrow> bool" where
  "probe_fresh b (AxiosGet url timeout r) = is_ok r"
| "probe_fresh b (ConsoleLog ps) = b"
| "probe_fresh b e = False"

fun ready_justified :: "bool \<Rightarrow> effect list \<Rightarrow> bool" where
  "ready_justified b [] = True"
| "ready_justified b (e # es) =
     ((if is_ready e then b else True) \<and> ready_justified (probe_fresh b e) es)"

text \<open>
  The kinds of effect each part of the orchestrator can have: a health probe loop logs,
  requests with a timeout of 1000 ms, waits 1000 ms and sends the ready notification; a
  launch logs and spawns; the recovery dialog adds the two kinds of dialog box.
\<close>

fun is_probing :: "effect \<Rightarrow> bool" where
  "is_probing (ConsoleLog ps) = True"
| "is_probing (ConsoleError ps e) = (e = None)"
| "is_probing (AxiosGet url timeout r) = (timeout = 1000)"
| "is_probing (Sleep ms) = (ms = 1000)"
| "is_probing (Send channel payload) = (channel = ''service-ready'')"
| "is_probing e = False"

fun is_launching :: "effect \<Rightarrow> bool" where
  "is_launching (ConsoleLog ps) = True"
| "is_launching (ConsoleError ps e) = True"
| "is_launching (Spawn command args cwd p) = True"
| "is_launching (SpawnFailed command args cwd p) = True"
| "is_launching (SpawnThrew command args cwd) = True"
| "is_launching e = False"

fun is_dialog :: "effect \<Rightarrow> bool" where
  "is_dialog (ShowMessageBox response) = True"
| "is_dialog (ShowErrorBox title) = True"
| "is_dialog e = False"

fun is_precheck :: "effect \<Rightarrow> bool" where
  "is_precheck (ConsoleLog ps) = True"
| "is_precheck (AxiosGet url timeout r) = (timeout = 2000)"
| "is_precheck e = False"

definition is_recovery :: "effect \<Rightarrow> bool" where
  "is_recovery e = (is_probing e \<or> is_launching e \<or> is_dialog e)"

text \<open>
  The trace \<open>t'\<close> continues the trace \<open>t\<close>, by effects of the kind \<open>K\<close> only.
\<close>

definition extends :: "(effect \<Rightarrow> bool) \<Rightarrow> effect list \<Rightarrow> effect list \<Rightarrow> bool" where
  "extends K t t' = (take (length t) t' = t \<and> list_all K (drop (length t) t'))"

text \<open>
  The two bounds of the health probe as the specification words them: every per-attempt
  timeout of a trace is strictly smaller than every wait between attempts, and a trace
  fits into \<open>max_attempts\<close> polling intervals.
\<close>

definition timeouts_below_waits :: "effect list \<Rightarrow> bool" where
  "timeouts_below_waits t = list_all (\<lambda>timeout. list_all (\<lambda>wait. timeout < wait) (sleeps t)) (timeouts t)"

definition within_attempts_times_interval :: "nat \<Rightarrow> nat \<Rightarrow> effect list \<Rightarrow> bool" where
  "within_attempts_times_interval maxAttempts interval t = (budget t \<le> maxAttempts * interval)"

text \<open>
  The console line that reports the error thrown when neither the bundled executable
  nor the prerequisites of the fallback are found.
\<close>

definition launch_failure :: "env \<Rightarrow> effect" where
  "launch_failure ev =
     (if isPackaged ev then
        ConsoleError [S ''Failed to start bundled Python service:'']
          (Some (Error [S ''Python executable not found at: '', P (executablePath ev)]))
      else if \<not> existsSync ev (venvPython ev) then
        ConsoleError [S ''Failed to start venv Python service:'']
          (Some (Error [S ''Venv Python executable not found at: '', P (venvPython ev)]))
      else
        ConsoleError [S ''Failed to start venv Python service:'']
          (Some (Error [S ''Service script not found at: '', P (serviceScript ev)])))"

text \<open>
  Ownership: every handle on which \<open>kill()\<close> was called, and the handle held in
  \<open>pythonProcess\<close>, is a handle that a \<open>spawn\<close> of the orchestrator itself returned.
\<close>

definition owns_only_spawned :: "state \<Rightarrow> bool" where
  "owns_only_spawned s =
     (list_all (\<lambda>p. p \<in> set (handles (effects s))) (kills (effects s)) \<and>
      (case pythonProcess s of None \<Rightarrow> True | Some p \<Rightarrow> p \<in> set (handles (effects s))))"

text \<open>
  From \<open>s\<close> to \<open>s'\<close> nothing was killed, handles were only added, and the handle held
  is the one held before or one of those added.
\<close>

definition carries_on :: "state \<Rightarrow> state \<Rightarrow> bool" where
  "carries_on s s' =
     (kills (effects s') = kills (effects s) \<and>
      take (length (handles (effects s))) (handles (effects s')) = handles (effects s) \<and>
      (pythonProcess s' = pythonProcess s \<or>
       (case pythonProcess s' of
          None \<Rightarrow> False
        | Some p \<Rightarrow> p \<in> set (drop (length (handles (effects s))) (handles (effects s'))))))"

text \<open>The two events whose handler is \<open>disconnectFromService\<close>.\<close>

fun is_disconnect :: "event \<Rightarrow> bool" where
  "is_disconnect WindowAllClosed = True"
| "is_disconnect BeforeQuit = True"
| "is_disconnect e = False"

text \<open>The handle that \<open>disconnectFromService\<close> kills in a state.\<close>

definition held :: "state \<Rightarrow> pid list" where
  "held s = (case pythonProcess s of None \<Rightarrow> [] | Some p \<Rightarrow> [p])"

subsection \<open>Concrete environments\<close>

text \<open>
  A development checkout under \<open>/home/dev/covenantrix-v2\<close> on Linux, with \<open>main.js\<close>
  in \<open>electron-app/src\<close>, and a packaged installation.
\<close>

definition dev_root :: path where
  "dev_root = [''home'', ''dev'', ''covenantrix-v2'']"

definition refused :: axios_outcome where
  "refused = Rejected ''connect ECONNREFUSED 127.0.0.1:8080'' None"

definition healthy :: axios_outcome where
  "healthy = Resolved 200 (JObj [(''status'', JStr ''healthy'')])"

text \<open>
  What \<open>axios\<close> 1.x refuses before sending: query parameters that are not an object
  (\<open>target must be an object\<close>), and a body that is a boolean or a number.
\<close>

fun not_an_object :: "js_value \<Rightarrow> bool" where
  "not_an_object (JObj kvs) = False"
| "not_an_object (JArr vs) = False"
| "not_an_object v = True"

fun not_a_body :: "js_value \<Rightarrow> bool" where
  "not_a_body (JBool b) = True"
| "not_a_body (JNum n) = True"
| "not_a_body v = False"

definition axios1_rejects :: "axios_config \<Rightarrow> string option" where
  "axios1_rejects config =
     (case cfg_params config of
        Some v \<Rightarrow> if not_an_object v then Some ''target must be an object'' else None
      | None \<Rightarrow>
          (case cfg_data config of
             Some v \<Rightarrow>
               if not_a_body v
               then Some ''Data after transformation must be a string, an ArrayBuffer, a Buffer, or a Stream''
               else None
           | None \<Rightarrow> None))"

text \<open>Nothing is built, nothing listens; the user asks for the manual instructions.\<close>

definition env_bare :: env where
  "env_bare = \<lparr> isPackaged = False, platform = OtherPlatform,
                resourcesPath = [''opt'', ''Covenantrix'', ''resources''],
                dirname = dev_root @ [''electron-app'', ''src''],
                existsSync = (\<lambda>p. False), http = (\<lambda>n. refused),
                spawnOutcome = (\<lambda>n. Started), dialogChoice = (\<lambda>n. 1),
                unreadable = (\<lambda>p. None), axiosRejects = axios1_rejects \<rparr>"

text \<open>Nothing listens, and the document to upload exists and can be read.\<close>

definition env_document :: env where
  "env_document = env_bare\<lparr> existsSync := (\<lambda>p. p = [''home'', ''dev'', ''contract.pdf'']) \<rparr>"

text \<open>A packaged installation whose bundled executable is missing.\<close>

definition env_packaged_missing :: env where
  "env_packaged_missing = env_bare\<lparr> isPackaged := True \<rparr>"

text \<open>A service already listens and answers the health request with 200.\<close>

definition env_listening :: env where
  "env_listening = env_bare\<lparr> http := (\<lambda>n. healthy) \<rparr>"

text \<open>
  The bundled executable is built; the service it starts never answers, and the user
  chooses "Start Service Automatically" in the recovery dialog.
\<close>

definition env_never_ready :: env where
  "env_never_ready =
     env_bare\<lparr> existsSync := (\<lambda>p. p = dev_root @ [''python-dist'', ''covenantrix-service'']),
               dialogChoice := (\<lambda>n. 0) \<rparr>"

text \<open>
  The bundled executable is built; the pre-check is refused and the started service
  answers the first probe with 200.
\<close>

definition env_cold_start :: env where
  "env_cold_start =
     env_bare\<lparr> existsSync := (\<lambda>p. p = dev_root @ [''python-dist'', ''covenantrix-service'']),
               http := (\<lambda>n. if n = 0 then refused else healthy) \<rparr>"

text \<open>
  The bundled executable is built; a service already listens and answers the pre-check
  with 204 (No Content), later requests with 200.
\<close>

definition env_no_content :: env where
  "env_no_content =
     env_bare\<lparr> existsSync := (\<lambda>p. p = dev_root @ [''python-dist'', ''covenantrix-service'']),
               http := (\<lambda>n. if n = 0 then Resolved 204 JNull else healthy) \<rparr>"

text \<open>The application after its window was created, before \<open>ready-to-show\<close>.\<close>

definition windowed :: state where
  "windowed = init\<lparr> mainWindow := Some 1 \<rparr>"

text \<open>The application after a cold start that reached the ready notification.\<close>

definition ready_state :: state where
  "ready_state =
     run env_cold_start
       [CreateWindow 1, ReadyToShow, Settle 0 (Answered refused), Settle 0 (Answered healthy)] init"

text \<open>
  The events of a startup in which the window is closed while the pre-check is awaited,
  the pre-check is then answered with 200, and the application quits.
\<close>

definition closed_during_precheck :: "event list" where
  "closed_during_precheck =
     [CreateWindow 1, ReadyToShow, Closed, Settle 0 (Answered healthy), BeforeQuit]"

section \<open>Properties\<close>

subsection \<open>Basic facts\<close>

lemma emit_fields [simp]:
  "effects (emit e s) = effects s @ [e]"
  "pythonProcess (emit e s) = pythonProcess s"
  "mainWindow (emit e s) = mainWindow s"
  "serviceUrl (emit e s) = serviceUrl s"
  "servicePort (emit e s) = servicePort s"
  "requests (emit e s) = requests s"
  "spawned (emit e s) = spawned s"
  "dialogs (emit e s) = dialogs s"
  "pending (emit e s) = pending s"
  by (simp_all add: emit_def)

lemma kills_append [simp]: "kills (t @ u) = kills t @ kills u"
  by (simp add: kills_def)

lemma kills_Nil [simp]: "kills [] = []"
  by (simp add: kills_def)

lemma kills_Cons [simp]: "kills (e # t) = kill_of e @ kills t"
  by (simp add: kills_def)

lemma spawns_append [simp]: "spawns (t @ u) = spawns t @ spawns u"
  by (simp add: spawns_def)

lemma spawns_Nil [simp]: "spawns [] = []"
  by (simp add: spawns_def)

lemma spawns_Cons [simp]: "spawns (e # t) = spawn_of e @ spawns t"
  by (simp add: spawns_def)

lemma handles_append [simp]: "handles (t @ u) = handles t @ handles u"
  by (simp add: handles_def)

lemma handles_Nil [simp]: "handles [] = []"
  by (simp add: handles_def)

lemma handles_Cons [simp]: "handles (e # t) = handle_of e @ handles t"
  by (simp add: handles_def)

lemma network_append [simp]: "network (t @ u) = network t @ network u"
  by (simp add: network_def)

subsection \<open>Terminating the owned process\<close>

lemma disconnect_releases: "pythonProcess (disconnectFromService s) = None"
  by (simp add: disconnectFromService_def split: option.splits)

lemma disconnect_repeat:
  "pythonProcess s = None \<Longrightarrow>
   (disconnectFromService ^^ n) s = s\<lparr> effects := effects s @ replicate n leaving_it_running \<rparr>"
proof (induction n)
  case 0
  then show ?case by simp
next
  case (Suc n)
  then show ?case
    by (simp add: disconnectFromService_def emit_def replicate_append_same)
qed

text \<open>
  C7. \<open>disconnectFromService\<close> is idempotent. After any call no process is owned. While
  no process is owned (in particular before any launch), any number of calls changes no
  field and kills nothing: each call only writes the console line "leaving it running".
  Hence in any sequence of calls the owned process is killed once, by the first call,
  and every later call is such a no-op.
\<close>

theorem disconnectFromService_idempotent:
  "pythonProcess (disconnectFromService s) = None \<and>
   (pythonProcess s = None \<longrightarrow>
      (disconnectFromService ^^ n) s =
        s\<lparr> effects := effects s @ replicate n leaving_it_running \<rparr>) \<and>
   (disconnectFromService ^^ n) (disconnectFromService s) =
     (disconnectFromService s)
       \<lparr> effects := effects (disconnectFromService s) @ replicate n leaving_it_running \<rparr> \<and>
   kills (effects ((disconnectFromService ^^ n) (disconnectFromService s))) =
     kills (effects s) @ (case pythonProcess s of None \<Rightarrow> [] | Some p \<Rightarrow> [p])"
proof -
  have rel: "pythonProcess (disconnectFromService s) = None"
    by (rule disconnect_releases)
  have rep: "(disconnectFromService ^^ n) (disconnectFromService s) =
     (disconnectFromService s)
       \<lparr> effects := effects (disconnectFromService s) @ replicate n leaving_it_running \<rparr>"
    using rel by (rule disconnect_repeat)
  have k: "kills (effects ((disconnectFromService ^^ n) (disconnectFromService s))) =
     kills (effects s) @ (case pythonProcess s of None \<Rightarrow> [] | Some p \<Rightarrow> [p])"
    unfolding rep
    by (simp add: kills_def disconnectFromService_def leaving_it_running_def split: option.splits)
  show ?thesis using rel rep k disconnect_repeat by blast
qed

theorem disconnectFromService_idempotent_witness:
  "pythonProcess init = None \<and>
   (disconnectFromService ^^ 3) init =
     init\<lparr> effects := [leaving_it_running, leaving_it_running, leaving_it_running] \<rparr>"
proof -
  have h: "pythonProcess init = None" by (simp add: init_def)
  have a: "(disconnectFromService ^^ 3) init =
      init\<lparr> effects := effects init @ replicate 3 leaving_it_running \<rparr>"
    using h disconnectFromService_idempotent [of init 3] by blast
  have a': "init\<lparr> effects := effects init @ replicate 3 leaving_it_running \<rparr> =
      init\<lparr> effects := [leaving_it_running, leaving_it_running, leaving_it_running] \<rparr>"
    by (simp add: init_def numeral_3_eq_3)
  show ?thesis using h a a' by simp
qed

subsection \<open>The request bridge\<close>

lemma network_Nil [simp]: "network [] = []"
  by (simp add: network_def)

lemma network_Cons [simp]: "network (e # t) = (if is_network e then e # network t else network t)"
  by (simp add: network_def)

text \<open>
  C10, as stated, fails: a non-null but falsy \<open>data\<close> (here the empty string, with
  method POST) is attached neither as body nor as query parameters. And where the
  library refuses the configuration, as \<open>axios\<close> 1.x refuses the body \<open>true\<close>, nothing is
  sent at all.
\<close>

theorem api_call_falsy_data_counterexample:
  "cfg_data (api_config ''POST'' ''/api/query'' (JStr []) init) = None \<and>
   cfg_params (api_config ''POST'' ''/api/query'' (JStr []) init) = None \<and>
   JStr [] \<noteq> JNull \<and>
   truthy (JBool True) \<and>
   network (effects (snd (api_call env_bare ''POST'' ''/api/query'' (JBool True) init))) = []"
  by (simp add: api_config_def api_call_def api_settle_def env_bare_def axios1_rejects_def init_def)

text \<open>
  C10, amended. For every \<open>api-call\<close> with a truthy \<open>data\<close> argument, the configuration
  that the handler hands to \<open>axios\<close> carries \<open>data\<close> as query parameters and no body
  when the method is \<open>GET\<close>, and as body and no query parameters for every other
  method. When the library accepts the configuration, exactly one request is issued,
  with that configuration; when it refuses it, no request is issued and the handler
  returns the failure with the library's message.
\<close>

theorem api_call_data_placement:
  "truthy data \<Longrightarrow>
   cfg_params (api_config method endpoint data s) = (if method = ''GET'' then Some data else None) \<and>
   cfg_data (api_config method endpoint data s) = (if method = ''GET'' then None else Some data) \<and>
   (case axiosRejects ev (api_config method endpoint data s) of
      None \<Rightarrow>
        network (effects (snd (api_call ev method endpoint data s))) =
          network (effects s) @
            [AxiosRequest (api_config method endpoint data s) (http ev (requests s))]
    | Some msg \<Rightarrow>
        network (effects (snd (api_call ev method endpoint data s))) = network (effects s) \<and>
        fst (api_call ev method endpoint data s) = Failure [S msg] None)"
  by (cases "http ev (requests s)"; cases "axiosRejects ev (api_config method endpoint data s)")
     (simp_all add: api_config_def api_call_def api_settle_def Let_def)

theorem api_call_data_placement_witness:
  "truthy (JObj [(''folder_id'', JStr ''contracts'')]) \<and>
   cfg_params (api_config ''GET'' ''/api/documents'' (JObj [(''folder_id'', JStr ''contracts'')]) init) =
     Some (JObj [(''folder_id'', JStr ''contracts'')]) \<and>
   cfg_data (api_config ''GET'' ''/api/documents'' (JObj [(''folder_id'', JStr ''contracts'')]) init) = None \<and>
   network (effects (snd (api_call env_bare ''GET'' ''/api/documents''
      (JObj [(''folder_id'', JStr ''contracts'')]) init))) =
     [AxiosRequest
        \<lparr> cfg_method = ''GET'', cfg_url = ''http://127.0.0.1:8080/api/documents'',
          cfg_timeout = 30000, cfg_params = Some (JObj [(''folder_id'', JStr ''contracts'')]),
          cfg_data = None \<rparr> refused]"
proof -
  have c: "api_config ''GET'' ''/api/documents'' (JObj [(''folder_id'', JStr ''contracts'')]) init =
      \<lparr> cfg_method = ''GET'', cfg_url = ''http://127.0.0.1:8080/api/documents'',
        cfg_timeout = 30000, cfg_params = Some (JObj [(''folder_id'', JStr ''contracts'')]),
        cfg_data = None \<rparr>"
    by (simp add: api_config_def init_def)
  have a: "axiosRejects env_bare
      (api_config ''GET'' ''/api/documents'' (JObj [(''folder_id'', JStr ''contracts'')]) init) = None"
    unfolding c by (simp add: env_bare_def axios1_rejects_def)
  have h: "http env_bare (requests init) = refused" "effects init = []"
    by (simp_all add: env_bare_def init_def)
  show ?thesis
    using api_call_data_placement
      [of "JObj [(''folder_id'', JStr ''contracts'')]" "''GET''" "''/api/documents''" init env_bare]
    unfolding a h by (simp add: c)
qed

text \<open>
  C4, as stated, fails: in the freshly constructed application, where no ready
  notification was ever sent, an upload call for a document that exists and can be read
  issues its POST request; the failure it returns is the network's.
\<close>

theorem upload_before_ready_counterexample:
  "open_error env_document [''home'', ''dev'', ''contract.pdf''] = None \<and>
   network (effects (snd (upload_file env_document (Some [''home'', ''dev'', ''contract.pdf'']) None init))) =
     [AxiosPost ''http://127.0.0.1:8080/api/documents/upload''
        \<lparr> form_file = [''home'', ''dev'', ''contract.pdf''], form_folder_id = ''default'' \<rparr>
        60000 refused] \<and>
   fst (upload_file env_document (Some [''home'', ''dev'', ''contract.pdf'']) None init) =
     Failure [S ''connect ECONNREFUSED 127.0.0.1:8080''] None"
  by (simp add: upload_file_def upload_settle_def open_error_def folder_of_def env_document_def
      env_bare_def init_def refused_def Let_def)

text \<open>
  C4, amended. An upload call consults no state of the connection. For a file that can
  be opened for reading it issues exactly one POST request to \<open>/api/documents/upload\<close>
  with a timeout of 60000 ms, whatever the state of the connection, and returns the
  response body when the request resolves and a structured failure with the error
  message when it rejects. For a file that cannot be opened no request is issued, and
  the failure carries the error of the file system.
\<close>

theorem upload_file_no_readiness_guard:
  "(case open_error ev p of
      None \<Rightarrow>
        network (effects (snd (upload_file ev (Some p) folderId s))) =
          network (effects s) @
            [AxiosPost (serviceUrl s @ ''/api/documents/upload'')
               \<lparr> form_file = p,
                 form_folder_id = (case folderId of None \<Rightarrow> ''default'' | Some f \<Rightarrow> f) \<rparr>
               60000 (http ev (requests s))] \<and>
        fst (upload_file ev (Some p) folderId s) =
          (case http ev (requests s) of
             Resolved status body \<Rightarrow> Success body
           | Rejected msg st \<Rightarrow> Failure [S msg] None)
    | Some msg \<Rightarrow>
        network (effects (snd (upload_file ev (Some p) folderId s))) = network (effects s) \<and>
        fst (upload_file ev (Some p) folderId s) = Failure msg None)"
  by (cases "http ev (requests s)"; cases "open_error ev p")
     (simp_all add: upload_file_def upload_settle_def folder_of_def Let_def)

theorem upload_file_no_readiness_guard_witness:
  "open_error env_bare [''home'', ''dev'', ''contract.pdf''] =
     Some [S ''ENOENT: no such file or directory, open '', P [''home'', ''dev'', ''contract.pdf'']] \<and>
   network (effects (snd (upload_file env_bare (Some [''home'', ''dev'', ''contract.pdf'']) None init))) = [] \<and>
   fst (upload_file env_bare (Some [''home'', ''dev'', ''contract.pdf'']) None init) =
     Failure [S ''ENOENT: no such file or directory, open '', P [''home'', ''dev'', ''contract.pdf'']] None"
proof -
  have o: "open_error env_bare [''home'', ''dev'', ''contract.pdf''] =
      Some [S ''ENOENT: no such file or directory, open '', P [''home'', ''dev'', ''contract.pdf'']]"
    by (simp add: open_error_def env_bare_def)
  have e: "effects init = []"
    by (simp add: init_def)
  show ?thesis
    using upload_file_no_readiness_guard [of env_bare "[''home'', ''dev'', ''contract.pdf'']" None init]
    unfolding o e by simp
qed

subsection \<open>Locating the artifact\<close>

text \<open>
  C6, as stated, fails: in a packaged installation whose bundled executable is missing,
  the locator returns a path that does not exist.
\<close>

theorem locate_packaged_missing_counterexample:
  "fst (getPythonExecutablePath env_packaged_missing init) =
     Some [''opt'', ''Covenantrix'', ''resources'', ''python-service'', ''covenantrix-service''] \<and>
   \<not> existsSync env_packaged_missing
        [''opt'', ''Covenantrix'', ''resources'', ''python-service'', ''covenantrix-service'']"
  by (simp add: getPythonExecutablePath_def executablePath_def executableName_def path_join_def
      env_packaged_missing_def env_bare_def)

text \<open>
  C6, amended. In development mode the locator returns the path under \<open>python-dist\<close>
  when it exists and the absence signal otherwise, never a path that does not exist. In
  installed mode it always returns the fixed path under the bundled resources, without
  asking the file system.
\<close>

theorem getPythonExecutablePath_result:
  "fst (getPythonExecutablePath ev s) =
     (if isPackaged ev then Some (path_join (resourcesPath ev) [''python-service'', executableName ev])
      else if existsSync ev (path_join (projectRoot ev) [''python-dist'', executableName ev])
      then Some (path_join (projectRoot ev) [''python-dist'', executableName ev])
      else None) \<and>
   (\<not> isPackaged ev \<longrightarrow>
      (case fst (getPythonExecutablePath ev s) of None \<Rightarrow> True | Some p \<Rightarrow> existsSync ev p))"
  by (simp add: getPythonExecutablePath_def executablePath_def)

theorem getPythonExecutablePath_result_witness:
  "\<not> isPackaged env_cold_start \<and>
   fst (getPythonExecutablePath env_cold_start init) =
     Some [''home'', ''dev'', ''covenantrix-v2'', ''python-dist'', ''covenantrix-service''] \<and>
   existsSync env_cold_start
     [''home'', ''dev'', ''covenantrix-v2'', ''python-dist'', ''covenantrix-service'']"
  using getPythonExecutablePath_result [of env_cold_start init]
  by (simp add: env_cold_start_def env_bare_def dev_root_def projectRoot_def path_join_def
      executableName_def)

subsection \<open>Traces that continue traces\<close>

lemma extends_iff: "extends K t t' \<longleftrightarrow> (\<exists>new. t' = t @ new \<and> list_all K new)"
proof
  assume "extends K t t'"
  then have "t' = t @ drop (length t) t'" and "list_all K (drop (length t) t')"
    unfolding extends_def by (metis append_take_drop_id, simp)
  then show "\<exists>new. t' = t @ new \<and> list_all K new" by blast
next
  assume "\<exists>new. t' = t @ new \<and> list_all K new"
  then show "extends K t t'" by (auto simp: extends_def)
qed

lemma extends_refl [simp]: "extends K t t"
  by (simp add: extends_iff)

lemma extends_append: "extends K t u \<Longrightarrow> list_all K new \<Longrightarrow> extends K t (u @ new)"
  by (auto simp: extends_iff)

lemma extends_trans: "extends K t u \<Longrightarrow> extends K u v \<Longrightarrow> extends K t v"
  by (auto simp: extends_iff)

lemma extends_mono: "extends K t u \<Longrightarrow> (\<And>e. K e \<Longrightarrow> L e) \<Longrightarrow> extends L t u"
  by (auto simp: extends_iff list_all_iff)

lemma extends_set: "extends K t u \<Longrightarrow> set t \<subseteq> set u"
  by (auto simp: extends_iff)

lemma silent_kills: "list_all K new \<Longrightarrow> (\<And>e. K e \<Longrightarrow> kill_of e = []) \<Longrightarrow> kills new = []"
  by (induction new) simp_all

lemma silent_handles: "list_all K new \<Longrightarrow> (\<And>e. K e \<Longrightarrow> handle_of e = []) \<Longrightarrow> handles new = []"
  by (induction new) simp_all

lemma silent_spawns: "list_all K new \<Longrightarrow> (\<And>e. K e \<Longrightarrow> spawn_of e = []) \<Longrightarrow> spawns new = []"
  by (induction new) simp_all

lemma extends_kills:
  "extends K t u \<Longrightarrow> (\<And>e. K e \<Longrightarrow> kill_of e = []) \<Longrightarrow> kills u = kills t"
  by (auto simp: extends_iff silent_kills)

lemma extends_handles:
  "extends K t u \<Longrightarrow> (\<And>e. K e \<Longrightarrow> handle_of e = []) \<Longrightarrow> handles u = handles t"
  by (auto simp: extends_iff silent_handles)

lemma extends_spawns:
  "extends K t u \<Longrightarrow> (\<And>e. K e \<Longrightarrow> spawn_of e = []) \<Longrightarrow> spawns u = spawns t"
  by (auto simp: extends_iff silent_spawns)

lemma extends_filter:
  "extends K t u \<Longrightarrow> (\<And>e. K e \<Longrightarrow> \<not> Q e) \<Longrightarrow> filter Q u = filter Q t"
  by (auto simp: extends_iff list_all_iff filter_empty_conv)

lemma is_probing_cases:
  "is_probing e \<Longrightarrow> kill_of e = [] \<and> spawn_of e = [] \<and> handle_of e = [] \<and>
     \<not> is_spawn_attempt e \<and> \<not> is_prompt e"
  by (cases e) simp_all

lemma is_launching_cases:
  "is_launching e \<Longrightarrow> kill_of e = [] \<and> \<not> is_prompt e \<and> \<not> is_ready e \<and> \<not> is_network e"
  by (cases e) simp_all

lemma is_recovery_cases: "is_recovery e \<Longrightarrow> kill_of e = []"
  by (cases e) (simp_all add: is_recovery_def)

subsection \<open>The health probe\<close>

lemma connect_attempts_fields [simp]:
  "mainWindow (snd (connect_attempts ev n s)) = mainWindow s"
  "pythonProcess (snd (connect_attempts ev n s)) = pythonProcess s"
  "serviceUrl (snd (connect_attempts ev n s)) = serviceUrl s"
  "spawned (snd (connect_attempts ev n s)) = spawned s"
  "dialogs (snd (connect_attempts ev n s)) = dialogs s"
  by (induction n arbitrary: s;
      simp add: axios_get_def webContents_send_def Let_def
           split: axios_outcome.splits option.splits)+

lemma connect_attempts_extends:
  "extends is_probing t (effects s) \<Longrightarrow> extends is_probing t (effects (snd (connect_attempts ev n s)))"
proof (induction n arbitrary: s)
  case 0
  then show ?case by simp
next
  case (Suc n)
  show ?case
  proof (cases "http ev (requests s)")
    case (Resolved status body)
    with Suc show ?thesis
      by (auto simp: axios_get_def webContents_send_def Let_def extends_append
          split: option.splits intro!: Suc.IH)
  next
    case (Rejected msg st)
    with Suc show ?thesis
      by (auto simp: axios_get_def Let_def extends_append intro!: Suc.IH)
  qed
qed

lemma timeouts_append [simp]: "timeouts (t @ u) = timeouts t @ timeouts u"
  by (simp add: timeouts_def)

lemma timeouts_Nil [simp]: "timeouts [] = []"
  by (simp add: timeouts_def)

lemma timeouts_Cons [simp]: "timeouts (e # t) = timeout_of e @ timeouts t"
  by (simp add: timeouts_def)

lemma sleeps_append [simp]: "sleeps (t @ u) = sleeps t @ sleeps u"
  by (simp add: sleeps_def)

lemma sleeps_Nil [simp]: "sleeps [] = []"
  by (simp add: sleeps_def)

lemma sleeps_Cons [simp]: "sleeps (e # t) = sleep_of e @ sleeps t"
  by (simp add: sleeps_def)

lemma connect_attempts_timing:
  "\<exists>k j. j \<le> k \<and> k \<le> n \<and>
     timeouts (effects (snd (connect_attempts ev n s))) = timeouts (effects s) @ replicate k 1000 \<and>
     sleeps (effects (snd (connect_attempts ev n s))) = sleeps (effects s) @ replicate j 1000"
proof (induction n arbitrary: s)
  case 0
  show ?case by simp
next
  case (Suc n)
  define s1 where "s1 = snd (axios_get ev (serviceUrl s @ ''/health'') 1000 s)"
  have t1: "timeouts (effects s1) = timeouts (effects s) @ [1000]"
    and w1: "sleeps (effects s1) = sleeps (effects s)"
    by (simp_all add: s1_def axios_get_def Let_def)
  have stop: "\<exists>k j. j \<le> k \<and> k \<le> Suc n \<and>
      timeouts (effects s1 @ u) = timeouts (effects s) @ replicate k 1000 \<and>
      sleeps (effects s1 @ u) = sleeps (effects s) @ replicate j 1000"
    if "timeouts u = []" and "sleeps u = []" for u
    using that t1 w1 by (intro exI [of _ 1] exI [of _ 0]) simp
  have go: "\<exists>k j. j \<le> k \<and> k \<le> Suc n \<and>
      timeouts (effects (snd (connect_attempts ev n s'))) = timeouts (effects s) @ replicate k 1000 \<and>
      sleeps (effects (snd (connect_attempts ev n s'))) = sleeps (effects s) @ replicate j 1000"
    if t: "timeouts (effects s') = timeouts (effects s1)"
      and w: "sleeps (effects s') = sleeps (effects s1) \<or> sleeps (effects s') = sleeps (effects s1) @ [1000]"
    for s'
  proof -
    obtain k j where kj: "j \<le> k" "k \<le> n"
      and tk: "timeouts (effects (snd (connect_attempts ev n s'))) = timeouts (effects s') @ replicate k 1000"
      and wj: "sleeps (effects (snd (connect_attempts ev n s'))) = sleeps (effects s') @ replicate j 1000"
      using Suc.IH [of s'] by blast
    have tk': "timeouts (effects (snd (connect_attempts ev n s'))) = timeouts (effects s) @ replicate (Suc k) 1000"
      using tk t t1 by (simp add: replicate_append_same)
    from w show ?thesis
    proof
      assume "sleeps (effects s') = sleeps (effects s1)"
      then have "sleeps (effects (snd (connect_attempts ev n s'))) = sleeps (effects s) @ replicate j 1000"
        using wj w1 by simp
      with tk' kj show ?thesis
        by (intro exI [of _ "Suc k"] exI [of _ j]) simp
    next
      assume "sleeps (effects s') = sleeps (effects s1) @ [1000]"
      then have "sleeps (effects (snd (connect_attempts ev n s'))) = sleeps (effects s) @ replicate (Suc j) 1000"
        using wj w1 by (simp add: replicate_append_same)
      with tk' kj show ?thesis
        by (intro exI [of _ "Suc k"] exI [of _ "Suc j"]) simp
    qed
  qed
  show ?case
  proof (cases "http ev (requests s)")
    case (Rejected msg st)
    then have "connect_attempts ev (Suc n) s = connect_attempts ev n (emit (Sleep 1000) s1)"
      by (simp add: s1_def axios_get_def Let_def)
    then show ?thesis using go [of "emit (Sleep 1000) s1"] by simp
  next
    case (Resolved status body)
    show ?thesis
    proof (cases "status = 200")
      case False
      with Resolved have "connect_attempts ev (Suc n) s = connect_attempts ev n s1"
        by (simp add: s1_def axios_get_def Let_def)
      then show ?thesis using go [of s1] by simp
    next
      case True
      define s2 where "s2 = emit (ConsoleLog [S ''Connected to Python service successfully!'']) s1"
      show ?thesis
      proof (cases "mainWindow s")
        case None
        with True Resolved
        have "connect_attempts ev (Suc n) s = connect_attempts ev n (emit (Sleep 1000) s2)"
          by (simp add: s1_def s2_def axios_get_def webContents_send_def Let_def)
        then show ?thesis using go [of "emit (Sleep 1000) s2"] by (simp add: s2_def)
      next
        case (Some w)
        with True Resolved
        have "effects (snd (connect_attempts ev (Suc n) s)) =
            effects s1 @ [ConsoleLog [S ''Connected to Python service successfully!''],
                          Send ''service-ready'' (serviceUrl s)]"
          by (simp add: s1_def axios_get_def webContents_send_def Let_def)
        then show ?thesis
          using stop [of "[ConsoleLog [S ''Connected to Python service successfully!''],
                          Send ''service-ready'' (serviceUrl s)]"] by simp
      qed
    qed
  qed
qed

lemma connectToExistingService_effects:
  "\<exists>final. effects (snd (connectToExistingService ev n s)) =
     effects (snd (connect_attempts ev n
        (emit (ConsoleLog [S ''Connecting to existing Python service at 127.0.0.1:8080...'']) s))) @ final
     \<and> list_all is_console final"
proof -
  obtain a b where ab: "connect_attempts ev n
      (emit (ConsoleLog [S ''Connecting to existing Python service at 127.0.0.1:8080...'']) s) = (a, b)"
    by fastforce
  show ?thesis
    by (cases a) (simp_all add: connectToExistingService_def ab)
qed

lemma console_timeouts: "list_all is_console u \<Longrightarrow> timeouts u = [] \<and> sleeps u = []"
proof (induction u)
  case Nil
  show ?case by simp
next
  case (Cons e u)
  then show ?case by (cases e) simp_all
qed

text \<open>
  C5, as stated, fails: one refused attempt of \<open>connectToExistingService\<close> has a timeout
  of 1000 ms and is followed by a wait of 1000 ms, so the timeout is not strictly
  smaller than the interval, and the time the attempt may take, 2000 ms, is not within
  one interval.
\<close>

theorem probe_timeout_counterexample:
  "\<not> timeouts_below_waits (effects (snd (connectToExistingService env_bare 1 init))) \<and>
   \<not> within_attempts_times_interval 1 1000 (effects (snd (connectToExistingService env_bare 1 init)))"
  by (simp add: timeouts_below_waits_def within_attempts_times_interval_def budget_def
      connectToExistingService_def axios_get_def env_bare_def refused_def init_def emit_def Let_def)

text \<open>
  The probe loop issues at most \<open>maxAttempts\<close> requests and at most as many waits, all
  with the same 1000 ms.
\<close>

lemma connect_timing:
  "\<exists>k j. j \<le> k \<and> k \<le> maxAttempts \<and>
     timeouts (effects (snd (connectToExistingService ev maxAttempts s))) =
       timeouts (effects s) @ replicate k 1000 \<and>
     sleeps (effects (snd (connectToExistingService ev maxAttempts s))) =
       sleeps (effects s) @ replicate j 1000 \<and>
     budget (effects (snd (connectToExistingService ev maxAttempts s))) =
       budget (effects s) + (k + j) * 1000 \<and>
     budget (effects (snd (connectToExistingService ev maxAttempts s))) \<le>
       budget (effects s) + maxAttempts * 2000"
proof -
  define s0 where "s0 = emit (ConsoleLog [S ''Connecting to existing Python service at 127.0.0.1:8080...'']) s"
  obtain final where f: "effects (snd (connectToExistingService ev maxAttempts s)) =
      effects (snd (connect_attempts ev maxAttempts s0)) @ final" "list_all is_console final"
    using connectToExistingService_effects [of ev maxAttempts s] unfolding s0_def by blast
  obtain k j where kj: "j \<le> k" "k \<le> maxAttempts"
    and tk: "timeouts (effects (snd (connect_attempts ev maxAttempts s0))) = timeouts (effects s0) @ replicate k 1000"
    and wj: "sleeps (effects (snd (connect_attempts ev maxAttempts s0))) = sleeps (effects s0) @ replicate j 1000"
    using connect_attempts_timing [of maxAttempts ev s0] by blast
  have t: "timeouts (effects (snd (connectToExistingService ev maxAttempts s))) =
      timeouts (effects s) @ replicate k 1000"
    using f tk console_timeouts [OF f(2)] by (simp add: s0_def)
  have w: "sleeps (effects (snd (connectToExistingService ev maxAttempts s))) =
      sleeps (effects s) @ replicate j 1000"
    using f wj console_timeouts [OF f(2)] by (simp add: s0_def)
  have b: "budget (effects (snd (connectToExistingService ev maxAttempts s))) =
      budget (effects s) + (k + j) * 1000"
    unfolding budget_def t w by (simp add: sum_list_replicate algebra_simps)
  have "(k + j) * 1000 \<le> maxAttempts * 2000" using kj by simp
  with b have le: "budget (effects (snd (connectToExistingService ev maxAttempts s))) \<le>
      budget (effects s) + maxAttempts * 2000" by simp
  show ?thesis using kj t w b le by blast
qed

subsection \<open>Launching\<close>

lemma spawn_attempts_append [simp]: "spawn_attempts (t @ u) = spawn_attempts t + spawn_attempts u"
  by (simp add: spawn_attempts_def)

lemma spawn_attempts_Nil [simp]: "spawn_attempts [] = 0"
  by (simp add: spawn_attempts_def)

lemma spawn_attempts_Cons [simp]:
  "spawn_attempts (e # t) = (if is_spawn_attempt e then 1 else 0) + spawn_attempts t"
  by (simp add: spawn_attempts_def)

lemma prompts_append [simp]: "prompts (t @ u) = prompts t + prompts u"
  by (simp add: prompts_def)

lemma prompts_Nil [simp]: "prompts [] = 0"
  by (simp add: prompts_def)

lemma prompts_Cons [simp]: "prompts (e # t) = (if is_prompt e then 1 else 0) + prompts t"
  by (simp add: prompts_def)

lemma extends_spawn_attempts:
  "extends K t u \<Longrightarrow> (\<And>e. K e \<Longrightarrow> \<not> is_spawn_attempt e) \<Longrightarrow> spawn_attempts u = spawn_attempts t"
  unfolding spawn_attempts_def by (simp add: extends_filter [of K t u is_spawn_attempt])

lemma extends_prompts:
  "extends K t u \<Longrightarrow> (\<And>e. K e \<Longrightarrow> \<not> is_prompt e) \<Longrightarrow> prompts u = prompts t"
  unfolding prompts_def by (simp add: extends_filter [of K t u is_prompt])

lemma locate_packaged:
  "isPackaged ev \<Longrightarrow>
   getPythonExecutablePath ev s =
     (Some (executablePath ev),
      s\<lparr> effects := effects s @
        [ConsoleLog [S ''App packaged: '', B True],
         ConsoleLog [S ''Target executable path: '', P (executablePath ev)]] \<rparr>)"
  by (simp add: getPythonExecutablePath_def emit_def)

lemma locate_dev_found:
  "\<not> isPackaged ev \<Longrightarrow> existsSync ev (executablePath ev) \<Longrightarrow>
   getPythonExecutablePath ev s =
     (Some (executablePath ev),
      s\<lparr> effects := effects s @
        [ConsoleLog [S ''App packaged: '', B False],
         ConsoleLog [S ''Development mode - looking in: '', P (executablePath ev)],
         ConsoleLog [S ''Target executable path: '', P (executablePath ev)]] \<rparr>)"
  by (simp add: getPythonExecutablePath_def emit_def)

lemma locate_dev_absent:
  "\<not> isPackaged ev \<Longrightarrow> \<not> existsSync ev (executablePath ev) \<Longrightarrow>
   getPythonExecutablePath ev s =
     (None,
      s\<lparr> effects := effects s @
        [ConsoleLog [S ''App packaged: '', B False],
         ConsoleLog [S ''Development mode - looking in: '', P (executablePath ev)],
         ConsoleLog [S ''Bundled executable not found in development, will try venv fallback'']] \<rparr>)"
  by (simp add: getPythonExecutablePath_def emit_def)

lemma start_bundled_dev:
  "\<not> isPackaged ev \<Longrightarrow> existsSync ev (executablePath ev) \<Longrightarrow>
   spawnOutcome ev (spawned s) = Started \<Longrightarrow>
   startPythonService ev s =
     (True,
      s\<lparr> pythonProcess := Some (spawned s), spawned := spawned s + 1,
         effects := effects s @
        [ConsoleLog [S ''Starting bundled Python service automatically...''],
         ConsoleLog [S ''App packaged: '', B False],
         ConsoleLog [S ''Development mode - looking in: '', P (executablePath ev)],
         ConsoleLog [S ''Target executable path: '', P (executablePath ev)],
         ConsoleLog [S ''Using bundled Python executable: '', P (executablePath ev)],
         Spawn (executablePath ev) [] (path_dirname (executablePath ev)) (spawned s),
         ConsoleLog [S ''Bundled Python service process started'']] \<rparr>)"
  by (simp add: startPythonService_def locate_dev_found spawn_child_def emit_def Let_def)

text \<open>
  What a launch can do to the ownership of processes. It kills nothing. It makes at
  most one \<open>spawn\<close> call; when the call returns a handle, that handle is held afterwards
  in place of the previous one, and otherwise the handle is as before. It returns
  \<open>true\<close> only with a new handle. A child has been started exactly when it returns
  \<open>true\<close> and \<open>spawn\<close> started one.
\<close>

lemma fallback_outcome:
  "kills (effects (snd (startPythonServiceVenvFallback ev s))) = kills (effects s) \<and>
   (handles (effects (snd (startPythonServiceVenvFallback ev s))) = handles (effects s) \<or>
    handles (effects (snd (startPythonServiceVenvFallback ev s))) = handles (effects s) @ [spawned s]) \<and>
   pythonProcess (snd (startPythonServiceVenvFallback ev s)) =
     (if handles (effects (snd (startPythonServiceVenvFallback ev s))) = handles (effects s)
      then pythonProcess s else Some (spawned s)) \<and>
   (if fst (startPythonServiceVenvFallback ev s)
    then handles (effects (snd (startPythonServiceVenvFallback ev s))) = handles (effects s) @ [spawned s] \<and>
         spawned (snd (startPythonServiceVenvFallback ev s)) = spawned s + 1
    else handles (effects (snd (startPythonServiceVenvFallback ev s))) = handles (effects s) \<or>
         spawnOutcome ev (spawned s) = NoStreams) \<and>
   spawns (effects (snd (startPythonServiceVenvFallback ev s))) =
     spawns (effects s) @
       (if fst (startPythonServiceVenvFallback ev s) \<and> spawnOutcome ev (spawned s) = Started
        then [spawned s] else [])"
  by (simp add: startPythonServiceVenvFallback_def spawn_child_def Let_def
      split: spawn_outcome.splits)

lemma locate_fields [simp]:
  "mainWindow (snd (getPythonExecutablePath ev s)) = mainWindow s"
  "pythonProcess (snd (getPythonExecutablePath ev s)) = pythonProcess s"
  "serviceUrl (snd (getPythonExecutablePath ev s)) = serviceUrl s"
  "requests (snd (getPythonExecutablePath ev s)) = requests s"
  "spawned (snd (getPythonExecutablePath ev s)) = spawned s"
  "dialogs (snd (getPythonExecutablePath ev s)) = dialogs s"
  by (simp_all add: getPythonExecutablePath_def Let_def)

lemma locate_extends:
  "extends is_console (effects s) (effects (snd (getPythonExecutablePath ev s)))"
  by (simp add: getPythonExecutablePath_def Let_def extends_append)

lemma is_console_cases:
  "is_console e \<Longrightarrow> kill_of e = [] \<and> spawn_of e = [] \<and> handle_of e = [] \<and>
     \<not> is_spawn_attempt e \<and> \<not> is_prompt e \<and> \<not> is_ready e \<and> \<not> is_network e \<and> is_launching e"
  by (cases e) simp_all

lemma start_outcome:
  "kills (effects (snd (startPythonService ev s))) = kills (effects s) \<and>
   (handles (effects (snd (startPythonService ev s))) = handles (effects s) \<or>
    handles (effects (snd (startPythonService ev s))) = handles (effects s) @ [spawned s]) \<and>
   pythonProcess (snd (startPythonService ev s)) =
     (if handles (effects (snd (startPythonService ev s))) = handles (effects s)
      then pythonProcess s else Some (spawned s)) \<and>
   (if fst (startPythonService ev s)
    then handles (effects (snd (startPythonService ev s))) = handles (effects s) @ [spawned s] \<and>
         spawned (snd (startPythonService ev s)) = spawned s + 1
    else handles (effects (snd (startPythonService ev s))) = handles (effects s) \<or>
         spawnOutcome ev (spawned s) = NoStreams) \<and>
   spawns (effects (snd (startPythonService ev s))) =
     spawns (effects s) @
       (if fst (startPythonService ev s) \<and> spawnOutcome ev (spawned s) = Started
        then [spawned s] else [])"
proof -
  define s0 where "s0 = emit (ConsoleLog [S ''Starting bundled Python service automatically...'']) s"
  obtain r s1 where loc: "getPythonExecutablePath ev s0 = (r, s1)" by fastforce
  have s1: "s1 = snd (getPythonExecutablePath ev s0)"
    using loc by simp
  have ext: "extends is_console (effects s0) (effects s1)"
    unfolding s1 by (rule locate_extends)
  have k1: "kills (effects s1) = kills (effects s)"
    using extends_kills [OF ext] is_console_cases by (simp add: s0_def)
  have p1: "spawns (effects s1) = spawns (effects s)"
    using extends_spawns [OF ext] is_console_cases by (simp add: s0_def)
  have h1: "handles (effects s1) = handles (effects s)"
    using extends_handles [OF ext] is_console_cases by (simp add: s0_def)
  have f1: "pythonProcess s1 = pythonProcess s" "spawned s1 = spawned s"
    unfolding s1 by (simp_all add: s0_def)
  show ?thesis
  proof (cases r)
    case None
    define t where "t = emit (ConsoleLog [S ''Using venv fallback for development'']) s1"
    have eq: "startPythonService ev s = startPythonServiceVenvFallback ev t"
      using None by (simp add: startPythonService_def loc s0_def [symmetric] t_def)
    have t: "kills (effects t) = kills (effects s)" "handles (effects t) = handles (effects s)"
      "spawns (effects t) = spawns (effects s)" "pythonProcess t = pythonProcess s"
      "spawned t = spawned s"
      using k1 p1 h1 f1 by (simp_all add: t_def)
    show ?thesis
      unfolding eq using fallback_outcome [of ev t] unfolding t by blast
  next
    case (Some executable)
    then show ?thesis
      using k1 p1 h1 f1
      by (simp add: startPythonService_def loc s0_def [symmetric] spawn_child_def Let_def
          split: spawn_outcome.splits)
  qed
qed

lemma fallback_fields [simp]:
  "mainWindow (snd (startPythonServiceVenvFallback ev s)) = mainWindow s"
  "serviceUrl (snd (startPythonServiceVenvFallback ev s)) = serviceUrl s"
  "requests (snd (startPythonServiceVenvFallback ev s)) = requests s"
  "dialogs (snd (startPythonServiceVenvFallback ev s)) = dialogs s"
  by (simp_all add: startPythonServiceVenvFallback_def spawn_child_def Let_def
      split: spawn_outcome.splits)

lemma fallback_extends:
  "extends is_launching t (effects s) \<Longrightarrow>
   extends is_launching t (effects (snd (startPythonServiceVenvFallback ev s)))"
  by (simp add: startPythonServiceVenvFallback_def spawn_child_def Let_def extends_append
      split: spawn_outcome.splits)

lemma start_fields [simp]:
  "mainWindow (snd (startPythonService ev s)) = mainWindow s"
  "serviceUrl (snd (startPythonService ev s)) = serviceUrl s"
  "requests (snd (startPythonService ev s)) = requests s"
  "dialogs (snd (startPythonService ev s)) = dialogs s"
  by (simp_all add: startPythonService_def getPythonExecutablePath_def spawn_child_def Let_def
      split: spawn_outcome.splits)

lemma start_extends:
  assumes "extends is_launching t (effects s)"
  shows "extends is_launching t (effects (snd (startPythonService ev s)))"
proof -
  define s0 where "s0 = emit (ConsoleLog [S ''Starting bundled Python service automatically...'']) s"
  obtain r s1 where loc: "getPythonExecutablePath ev s0 = (r, s1)" by fastforce
  have s1: "s1 = snd (getPythonExecutablePath ev s0)"
    using loc by simp
  have "extends is_launching (effects s0) (effects s1)"
    unfolding s1 by (rule extends_mono [OF locate_extends]) (simp add: is_console_cases)
  moreover have "extends is_launching t (effects s0)"
    using assms by (simp add: s0_def extends_append)
  ultimately have ext: "extends is_launching t (effects s1)"
    using extends_trans by blast
  show ?thesis
  proof (cases r)
    case None
    then have "startPythonService ev s =
        startPythonServiceVenvFallback ev (emit (ConsoleLog [S ''Using venv fallback for development'']) s1)"
      by (simp add: startPythonService_def loc s0_def [symmetric])
    then show ?thesis
      using fallback_extends [of t "emit (ConsoleLog [S ''Using venv fallback for development'']) s1" ev] ext
      by (simp add: extends_append)
  next
    case (Some executable)
    then show ?thesis
      using ext
      by (simp add: startPythonService_def loc s0_def [symmetric] spawn_child_def Let_def extends_append
          split: spawn_outcome.splits)
  qed
qed

text \<open>When nothing can be launched: the only trace is console output ending in the report.\<close>

lemma start_nothing_found:
  assumes "\<not> existsSync ev (executablePath ev)"
    and "\<not> existsSync ev (venvPython ev) \<or> \<not> existsSync ev (serviceScript ev)"
  shows "\<exists>logs. list_all is_console logs \<and>
     startPythonService ev s = (False, s\<lparr> effects := effects s @ logs @ [launch_failure ev] \<rparr>)"
proof (cases "isPackaged ev")
  case True
  with assms show ?thesis
    by (intro exI [of _ "[ConsoleLog [S ''Starting bundled Python service automatically...''],
          ConsoleLog [S ''App packaged: '', B True],
          ConsoleLog [S ''Target executable path: '', P (executablePath ev)],
          ConsoleLog [S ''Using bundled Python executable: '', P (executablePath ev)]]"])
       (simp add: startPythonService_def locate_packaged launch_failure_def emit_def)
next
  case False
  with assms show ?thesis
    by (intro exI [of _ "[ConsoleLog [S ''Starting bundled Python service automatically...''],
          ConsoleLog [S ''App packaged: '', B False],
          ConsoleLog [S ''Development mode - looking in: '', P (executablePath ev)],
          ConsoleLog [S ''Bundled executable not found in development, will try venv fallback''],
          ConsoleLog [S ''Using venv fallback for development''],
          ConsoleLog [S ''Falling back to venv Python service for development...''],
          ConsoleLog [S ''Development fallback - using: '', P (venvPython ev)],
          ConsoleLog [S ''Service script: '', P (serviceScript ev)]]"])
       (auto simp: startPythonService_def locate_dev_absent startPythonServiceVenvFallback_def
          launch_failure_def emit_def Let_def)
qed

subsection \<open>Probing after a launch\<close>

lemma connect_fields [simp]:
  "mainWindow (snd (connectToExistingService ev n s)) = mainWindow s"
  "pythonProcess (snd (connectToExistingService ev n s)) = pythonProcess s"
  "serviceUrl (snd (connectToExistingService ev n s)) = serviceUrl s"
  "spawned (snd (connectToExistingService ev n s)) = spawned s"
  "dialogs (snd (connectToExistingService ev n s)) = dialogs s"
proof -
  obtain a b where ab: "connect_attempts ev n
      (emit (ConsoleLog [S ''Connecting to existing Python service at 127.0.0.1:8080...'']) s) = (a, b)"
    by fastforce
  then have b: "b = snd (connect_attempts ev n
      (emit (ConsoleLog [S ''Connecting to existing Python service at 127.0.0.1:8080...'']) s))"
    by simp
  have c: "snd (connectToExistingService ev n s) =
      (if a then b else emit (ConsoleError [S ''Could not connect to Python service''] None) b)"
    by (cases a) (simp_all add: connectToExistingService_def ab)
  show "mainWindow (snd (connectToExistingService ev n s)) = mainWindow s"
    "pythonProcess (snd (connectToExistingService ev n s)) = pythonProcess s"
    "serviceUrl (snd (connectToExistingService ev n s)) = serviceUrl s"
    "spawned (snd (connectToExistingService ev n s)) = spawned s"
    "dialogs (snd (connectToExistingService ev n s)) = dialogs s"
    unfolding c b by simp_all
qed

lemma connect_extends:
  assumes "extends is_probing t (effects s)"
  shows "extends is_probing t (effects (snd (connectToExistingService ev n s)))"
proof -
  define s0 where "s0 = emit (ConsoleLog [S ''Connecting to existing Python service at 127.0.0.1:8080...'']) s"
  obtain a b where ab: "connect_attempts ev n s0 = (a, b)"
    by fastforce
  then have b: "b = snd (connect_attempts ev n s0)"
    by simp
  have "extends is_probing t (effects s0)"
    using assms by (simp add: s0_def extends_append)
  then have "extends is_probing t (effects b)"
    unfolding b by (rule connect_attempts_extends)
  then show ?thesis
    by (cases a) (simp_all add: connectToExistingService_def ab s0_def [symmetric] extends_append)
qed

lemma connect_attempts_never_ok:
  "(\<And>k. \<not> is_ok (http ev k)) \<Longrightarrow> \<not> fst (connect_attempts ev n s)"
proof (induction n arbitrary: s)
  case 0
  show ?case by simp
next
  case (Suc n)
  from Suc.prems have "\<not> is_ok (http ev (requests s))" .
  then show ?case
    using Suc.IH [OF Suc.prems]
    by (cases "http ev (requests s)") (simp_all add: axios_get_def Let_def)
qed

lemma connect_never_ok:
  "(\<And>k. \<not> is_ok (http ev k)) \<Longrightarrow> \<not> fst (connectToExistingService ev n s)"
proof -
  assume h: "\<And>k. \<not> is_ok (http ev k)"
  obtain a b where ab: "connect_attempts ev n
      (emit (ConsoleLog [S ''Connecting to existing Python service at 127.0.0.1:8080...'']) s) = (a, b)"
    by fastforce
  with connect_attempts_never_ok [of ev n, OF h] have "\<not> a"
    by (metis fst_conv)
  then show ?thesis
    by (simp add: connectToExistingService_def ab)
qed

lemma connect_first_ok:
  "is_ok (http ev (requests s)) \<Longrightarrow> mainWindow s = Some w \<Longrightarrow>
   connectToExistingService ev (Suc n) s =
     (True,
      s\<lparr> requests := requests s + 1,
         effects := effects s @
        [ConsoleLog [S ''Connecting to existing Python service at 127.0.0.1:8080...''],
         AxiosGet (serviceUrl s @ ''/health'') 1000 (http ev (requests s)),
         ConsoleLog [S ''Connected to Python service successfully!''],
         Send ''service-ready'' (serviceUrl s)] \<rparr>)"
  by (cases "http ev (requests s)")
     (simp_all add: connectToExistingService_def axios_get_def webContents_send_def emit_def Let_def)

subsection \<open>The orchestrator\<close>

lemma is_launching_recovery: "is_launching e \<Longrightarrow> is_recovery e"
  by (simp add: is_recovery_def)

lemma is_probing_recovery: "is_probing e \<Longrightarrow> is_recovery e"
  by (simp add: is_recovery_def)

lemma options_fields [simp]:
  "mainWindow (showServiceConnectionOptions ev s) = mainWindow s"
  "serviceUrl (showServiceConnectionOptions ev s) = serviceUrl s"
  by (simp_all add: showServiceConnectionOptions_def showServiceError_def Let_def)

lemma options_cases:
  assumes "s0 = emit (ShowMessageBox (dialogChoice ev (dialogs s))) (s\<lparr> dialogs := dialogs s + 1 \<rparr>)"
  shows "showServiceConnectionOptions ev s =
     (if dialogChoice ev (dialogs s) = 0 then snd (startPythonService ev s0)
      else if dialogChoice ev (dialogs s) = 1 then showServiceError ev s0
      else if dialogChoice ev (dialogs s) = 2 then snd (connectToExistingService ev 10 s0)
      else s0)"
  unfolding assms by (simp add: showServiceConnectionOptions_def Let_def)

lemma options_extends:
  assumes "extends is_recovery t (effects s)"
  shows "extends is_recovery t (effects (showServiceConnectionOptions ev s))"
proof -
  define s0 where "s0 = emit (ShowMessageBox (dialogChoice ev (dialogs s))) (s\<lparr> dialogs := dialogs s + 1 \<rparr>)"
  have e0: "extends is_recovery t (effects s0)"
    using assms by (simp add: s0_def extends_append is_recovery_def)
  have a: "extends is_recovery t (effects (snd (startPythonService ev s0)))"
    using extends_trans [OF e0 extends_mono [OF start_extends [OF extends_refl] is_launching_recovery]] .
  have b: "extends is_recovery t (effects (snd (connectToExistingService ev 10 s0)))"
    using extends_trans [OF e0 extends_mono [OF connect_extends [OF extends_refl] is_probing_recovery]] .
  have c: "extends is_recovery t (effects (showServiceError ev s0))"
    using e0 by (simp add: showServiceError_def extends_append is_recovery_def)
  show ?thesis
    unfolding options_cases [OF s0_def] using a b c e0 by simp
qed

text \<open>The recovery dialog is shown once by each call, and never by a launch or a probe.\<close>

lemma options_prompts:
  "prompts (effects (showServiceConnectionOptions ev s)) = prompts (effects s) + 1"
proof -
  define s0 where "s0 = emit (ShowMessageBox (dialogChoice ev (dialogs s))) (s\<lparr> dialogs := dialogs s + 1 \<rparr>)"
  have p0: "prompts (effects s0) = prompts (effects s) + 1"
    by (simp add: s0_def)
  have a: "prompts (effects (snd (startPythonService ev s0))) = prompts (effects s0)"
    by (rule extends_prompts [OF start_extends [OF extends_refl]]) (simp add: is_launching_cases)
  have b: "prompts (effects (snd (connectToExistingService ev 10 s0))) = prompts (effects s0)"
    by (rule extends_prompts [OF connect_extends [OF extends_refl]]) (simp add: is_probing_cases)
  have c: "prompts (effects (showServiceError ev s0)) = prompts (effects s0)"
    by (simp add: showServiceError_def)
  show ?thesis
    unfolding options_cases [OF s0_def] using a b c p0 by simp
qed

text \<open>How \<open>start_then_connect\<close> continues, by the results of the launch and of the probe.\<close>

lemma start_then_connect_not_started:
  "\<not> fst (startPythonService ev s) \<Longrightarrow>
   start_then_connect ev s =
     showServiceConnectionOptions ev
       (emit (ConsoleError [S ''Failed to start Python service automatically''] None)
          (snd (startPythonService ev s)))"
  by (cases "startPythonService ev s") (simp add: start_then_connect_def)

lemma start_then_connect_not_connected:
  "fst (startPythonService ev s) \<Longrightarrow>
   \<not> fst (connectToExistingService ev 20 (snd (startPythonService ev s))) \<Longrightarrow>
   start_then_connect ev s =
     showServiceConnectionOptions ev
       (emit (ConsoleError [S ''Failed to connect after starting service''] None)
          (snd (connectToExistingService ev 20 (snd (startPythonService ev s)))))"
  by (cases "startPythonService ev s";
      cases "connectToExistingService ev 20 (snd (startPythonService ev s))")
     (simp add: start_then_connect_def)

lemma start_then_connect_connected:
  "fst (startPythonService ev s) \<Longrightarrow>
   fst (connectToExistingService ev 20 (snd (startPythonService ev s))) \<Longrightarrow>
   start_then_connect ev s = snd (connectToExistingService ev 20 (snd (startPythonService ev s)))"
  by (cases "startPythonService ev s";
      cases "connectToExistingService ev 20 (snd (startPythonService ev s))")
     (simp add: start_then_connect_def)

lemma start_then_connect_fields [simp]:
  "mainWindow (start_then_connect ev s) = mainWindow s"
  "serviceUrl (start_then_connect ev s) = serviceUrl s"
proof -
  consider "\<not> fst (startPythonService ev s)"
    | "fst (startPythonService ev s)" "\<not> fst (connectToExistingService ev 20 (snd (startPythonService ev s)))"
    | "fst (startPythonService ev s)" "fst (connectToExistingService ev 20 (snd (startPythonService ev s)))"
    by blast
  then have "mainWindow (start_then_connect ev s) = mainWindow s \<and>
      serviceUrl (start_then_connect ev s) = serviceUrl s"
    by cases (simp_all add: start_then_connect_not_started start_then_connect_not_connected
        start_then_connect_connected)
  then show "mainWindow (start_then_connect ev s) = mainWindow s"
    "serviceUrl (start_then_connect ev s) = serviceUrl s" by simp_all
qed

lemma start_then_connect_extends:
  assumes "extends is_recovery t (effects s)"
  shows "extends is_recovery t (effects (start_then_connect ev s))"
proof -
  have a: "extends is_recovery t (effects (snd (startPythonService ev s)))"
    using extends_trans [OF assms extends_mono [OF start_extends [OF extends_refl] is_launching_recovery]] .
  have b: "extends is_recovery t (effects (snd (connectToExistingService ev 20 (snd (startPythonService ev s)))))"
    using extends_trans [OF a extends_mono [OF connect_extends [OF extends_refl] is_probing_recovery]] .
  consider "\<not> fst (startPythonService ev s)"
    | "fst (startPythonService ev s)" "\<not> fst (connectToExistingService ev 20 (snd (startPythonService ev s)))"
    | "fst (startPythonService ev s)" "fst (connectToExistingService ev 20 (snd (startPythonService ev s)))"
    by blast
  then show ?thesis
  proof cases
    case 1
    then show ?thesis
      using a by (simp add: start_then_connect_not_started options_extends extends_append is_recovery_def)
  next
    case 2
    then show ?thesis
      using b by (simp add: start_then_connect_not_connected options_extends extends_append is_recovery_def)
  next
    case 3
    then show ?thesis
      using b by (simp add: start_then_connect_connected)
  qed
qed

text \<open>The two ways out of the pre-check.\<close>

lemma autoStart_precheck_ok:
  "is_ok (http ev (requests s)) \<Longrightarrow> mainWindow s = Some w \<Longrightarrow>
   autoStartAndConnect ev s =
     s\<lparr> requests := requests s + 1,
        effects := effects s @
          [ConsoleLog [S ''Auto-starting Covenantrix service...''],
           AxiosGet (serviceUrl s @ ''/health'') 2000 (http ev (requests s)),
           ConsoleLog [S ''Service already running, connecting...''],
           Send ''service-ready'' (serviceUrl s)] \<rparr>"
  by (cases "http ev (requests s)")
     (simp_all add: autoStartAndConnect_def axios_get_def webContents_send_def emit_def Let_def)

lemma autoStart_precheck_fails:
  "\<not> is_ok (http ev (requests s)) \<or> mainWindow s = None \<Longrightarrow>
   \<exists>pre. list_all is_precheck pre \<and> timeouts pre = [2000] \<and> sleeps pre = [] \<and>
     autoStartAndConnect ev s =
       start_then_connect ev (s\<lparr> requests := requests s + 1, effects := effects s @ pre \<rparr>)"
proof (cases "http ev (requests s)")
  case (Rejected msg st)
  then show ?thesis
    by (intro exI [of _ "[ConsoleLog [S ''Auto-starting Covenantrix service...''],
           AxiosGet (serviceUrl s @ ''/health'') 2000 (http ev (requests s)),
           ConsoleLog [S ''Service not running, starting automatically...'']]"])
       (simp add: autoStartAndConnect_def axios_get_def emit_def Let_def)
next
  case (Resolved status body)
  assume h: "\<not> is_ok (http ev (requests s)) \<or> mainWindow s = None"
  show ?thesis
  proof (cases "status = 200")
    case False
    with Resolved show ?thesis
      by (intro exI [of _ "[ConsoleLog [S ''Auto-starting Covenantrix service...''],
           AxiosGet (serviceUrl s @ ''/health'') 2000 (http ev (requests s))]"])
         (simp add: autoStartAndConnect_def axios_get_def emit_def Let_def)
  next
    case True
    with Resolved h have "mainWindow s = None" by simp
    with True Resolved show ?thesis
      by (intro exI [of _ "[ConsoleLog [S ''Auto-starting Covenantrix service...''],
           AxiosGet (serviceUrl s @ ''/health'') 2000 (http ev (requests s)),
           ConsoleLog [S ''Service already running, connecting...''],
           ConsoleLog [S ''Service not running, starting automatically...'']]"])
         (simp add: autoStartAndConnect_def axios_get_def webContents_send_def emit_def Let_def)
  qed
qed

lemma console_silent:
  "list_all is_console u \<Longrightarrow>
   kills u = [] \<and> spawns u = [] \<and> spawn_attempts u = 0 \<and> prompts u = 0"
proof (induction u)
  case Nil
  show ?case by simp
next
  case (Cons e u)
  then show ?case by (cases e) simp_all
qed

lemma precheck_silent:
  "list_all is_precheck u \<Longrightarrow>
   kills u = [] \<and> spawns u = [] \<and> spawn_attempts u = 0 \<and> prompts u = 0"
proof (induction u)
  case Nil
  show ?case by simp
next
  case (Cons e u)
  then show ?case by (cases e) simp_all
qed

lemma launch_failure_console: "is_console (launch_failure ev)"
  by (simp add: launch_failure_def)

lemma autoStart_kills: "kills (effects (autoStartAndConnect ev s)) = kills (effects s)"
proof (cases "is_ok (http ev (requests s)) \<and> mainWindow s \<noteq> None")
  case True
  then obtain w where "is_ok (http ev (requests s))" "mainWindow s = Some w" by blast
  then show ?thesis by (simp add: autoStart_precheck_ok)
next
  case False
  then obtain pre where pre: "list_all is_precheck pre"
    and eq: "autoStartAndConnect ev s =
       start_then_connect ev (s\<lparr> requests := requests s + 1, effects := effects s @ pre \<rparr>)"
    using autoStart_precheck_fails [of ev s] by blast
  have "kills (effects (autoStartAndConnect ev s)) = kills (effects s @ pre)"
    unfolding eq
    using extends_kills [OF start_then_connect_extends [OF extends_refl] is_recovery_cases]
    by simp
  then show ?thesis using precheck_silent [OF pre] by simp
qed

lemma options_kills: "kills (effects (showServiceConnectionOptions ev s)) = kills (effects s)"
  using extends_kills [OF options_extends [OF extends_refl] is_recovery_cases] by simp

text \<open>
  The cold start scenario: the pre-check fails, the bundled executable of a development
  checkout is launched, and the first probe of the launched service is answered with 200.
\<close>

lemma cold_start:
  assumes pre: "\<not> is_ok (http ev (requests s)) \<or> mainWindow s = None"
    and dev: "\<not> isPackaged ev" and built: "existsSync ev (executablePath ev)"
    and spawn: "spawnOutcome ev (spawned s) = Started"
    and up: "is_ok (http ev (requests s + 1))" and win: "mainWindow s = Some w"
  shows "pythonProcess (autoStartAndConnect ev s) = Some (spawned s) \<and>
    spawns (effects (autoStartAndConnect ev s)) = spawns (effects s) @ [spawned s] \<and>
    kills (effects (autoStartAndConnect ev s)) = kills (effects s) \<and>
    prompts (effects (autoStartAndConnect ev s)) = prompts (effects s) \<and>
    last (effects (autoStartAndConnect ev s)) = Send ''service-ready'' (serviceUrl s)"
proof -
  obtain pre where pre: "list_all is_precheck pre"
    and eq: "autoStartAndConnect ev s =
       start_then_connect ev (s\<lparr> requests := requests s + 1, effects := effects s @ pre \<rparr>)"
    using autoStart_precheck_fails [OF pre] by blast
  define sA where "sA = s\<lparr> requests := requests s + 1, effects := effects s @ pre \<rparr>"
  have st: "startPythonService ev sA =
     (True,
      sA\<lparr> pythonProcess := Some (spawned sA), spawned := spawned sA + 1,
         effects := effects sA @
        [ConsoleLog [S ''Starting bundled Python service automatically...''],
         ConsoleLog [S ''App packaged: '', B False],
         ConsoleLog [S ''Development mode - looking in: '', P (executablePath ev)],
         ConsoleLog [S ''Target executable path: '', P (executablePath ev)],
         ConsoleLog [S ''Using bundled Python executable: '', P (executablePath ev)],
         Spawn (executablePath ev) [] (path_dirname (executablePath ev)) (spawned sA),
         ConsoleLog [S ''Bundled Python service process started'']] \<rparr>)"
    using dev built spawn by (intro start_bundled_dev) (simp_all add: sA_def)
  define sB where "sB = snd (startPythonService ev sA)"
  have sB: "mainWindow sB = Some w" "requests sB = requests s + 1" "serviceUrl sB = serviceUrl s"
    "pythonProcess sB = Some (spawned s)"
    "spawns (effects sB) = spawns (effects s) @ [spawned s]"
    "kills (effects sB) = kills (effects s)"
    "prompts (effects sB) = prompts (effects s)"
    using win precheck_silent [OF pre] unfolding sB_def st by (simp_all add: sA_def)
  have co: "connectToExistingService ev (Suc 19) sB =
     (True,
      sB\<lparr> requests := requests sB + 1,
         effects := effects sB @
        [ConsoleLog [S ''Connecting to existing Python service at 127.0.0.1:8080...''],
         AxiosGet (serviceUrl sB @ ''/health'') 1000 (http ev (requests sB)),
         ConsoleLog [S ''Connected to Python service successfully!''],
         Send ''service-ready'' (serviceUrl sB)] \<rparr>)"
    using up sB by (intro connect_first_ok) simp_all
  have twenty: "Suc 19 = (20::nat)" by simp
  have fs: "fst (startPythonService ev sA)"
    by (simp add: st)
  have fc: "fst (connectToExistingService ev 20 (snd (startPythonService ev sA)))"
    using co unfolding twenty sB_def by simp
  have "autoStartAndConnect ev s = snd (connectToExistingService ev 20 sB)"
    unfolding eq sA_def [symmetric] sB_def
    using fs fc by (rule start_then_connect_connected)
  then show ?thesis
    using sB by (simp add: co [unfolded twenty])
qed

text \<open>
  C2, as stated, fails: when a service that already listens answers the pre-check with
  204, a 2xx status, the orchestrator goes on to launch the bundled executable.
\<close>

theorem precheck_2xx_counterexample:
  "http env_no_content (requests windowed) = Resolved 204 JNull \<and>
   mainWindow windowed = Some 1 \<and>
   spawns (effects windowed) = [] \<and>
   spawns (effects (autoStartAndConnect env_no_content windowed)) = [0]"
proof -
  have "spawns (effects (autoStartAndConnect env_no_content windowed)) =
      spawns (effects windowed) @ [spawned windowed]"
    using cold_start [of env_no_content windowed 1]
    by (simp add: env_no_content_def env_bare_def windowed_def init_def executablePath_def
        executableName_def projectRoot_def path_join_def dev_root_def healthy_def)
  then show ?thesis
    by (simp add: env_no_content_def env_bare_def windowed_def init_def)
qed

text \<open>
  C2, amended. For every startup cycle in which the pre-check health request resolves
  with status 200 while the main window exists, no child process is spawned: the cycle
  consists of the one health request (timeout 2000 ms) followed by the ready
  notification to the window, and the process handle is left as it was.
\<close>

theorem precheck_success_no_spawn:
  "http ev (requests s) = Resolved 200 body \<Longrightarrow> mainWindow s = Some w \<Longrightarrow>
   autoStartAndConnect ev s =
     s\<lparr> requests := requests s + 1,
        effects := effects s @
          [ConsoleLog [S ''Auto-starting Covenantrix service...''],
           AxiosGet (serviceUrl s @ ''/health'') 2000 (Resolved 200 body),
           ConsoleLog [S ''Service already running, connecting...''],
           Send ''service-ready'' (serviceUrl s)] \<rparr> \<and>
   spawn_attempts (effects (autoStartAndConnect ev s)) = spawn_attempts (effects s) \<and>
   spawned (autoStartAndConnect ev s) = spawned s \<and>
   pythonProcess (autoStartAndConnect ev s) = pythonProcess s"
  using autoStart_precheck_ok [of ev s w] by simp

theorem precheck_success_no_spawn_witness:
  "http env_listening (requests windowed) = Resolved 200 (JObj [(''status'', JStr ''healthy'')]) \<and>
   mainWindow windowed = Some 1 \<and>
   effects (autoStartAndConnect env_listening windowed) =
     [ConsoleLog [S ''Auto-starting Covenantrix service...''],
      AxiosGet ''http://127.0.0.1:8080/health'' 2000
        (Resolved 200 (JObj [(''status'', JStr ''healthy'')])),
      ConsoleLog [S ''Service already running, connecting...''],
      Send ''service-ready'' ''http://127.0.0.1:8080''] \<and>
   spawn_attempts (effects (autoStartAndConnect env_listening windowed)) = 0 \<and>
   pythonProcess (autoStartAndConnect env_listening windowed) = None"
proof -
  have h: "http env_listening (requests windowed) = Resolved 200 (JObj [(''status'', JStr ''healthy'')])"
    by (simp add: env_listening_def env_bare_def healthy_def)
  have w: "mainWindow windowed = Some 1"
    by (simp add: windowed_def)
  show ?thesis
    using precheck_success_no_spawn [OF h w] h w
    by (simp add: windowed_def init_def)
qed

subsection \<open>Launch failures and retries\<close>

text \<open>
  The retry scenario: the bundled executable is launched, the service never answers
  with 200, and the user chooses "Start Service Automatically" in the recovery dialog.
\<close>

lemma retry_spawns_again:
  assumes down: "\<And>k. \<not> is_ok (http ev k)"
    and dev: "\<not> isPackaged ev" and built: "existsSync ev (executablePath ev)"
    and spawn: "\<And>k. spawnOutcome ev k = Started"
    and again: "dialogChoice ev (dialogs s) = 0"
  shows "pythonProcess (autoStartAndConnect ev s) = Some (spawned s + 1) \<and>
    spawns (effects (autoStartAndConnect ev s)) = spawns (effects s) @ [spawned s, spawned s + 1] \<and>
    kills (effects (autoStartAndConnect ev s)) = kills (effects s)"
proof -
  obtain pre where pre: "list_all is_precheck pre"
    and eq: "autoStartAndConnect ev s =
       start_then_connect ev (s\<lparr> requests := requests s + 1, effects := effects s @ pre \<rparr>)"
    using autoStart_precheck_fails [of ev s] down by blast
  define sA where "sA = s\<lparr> requests := requests s + 1, effects := effects s @ pre \<rparr>"
  define sB where "sB = snd (startPythonService ev sA)"
  define sC where "sC = snd (connectToExistingService ev 20 sB)"
  define sE where "sE = emit (ConsoleError [S ''Failed to connect after starting service''] None) sC"
  define sD where "sD = emit (ShowMessageBox (dialogChoice ev (dialogs sE))) (sE\<lparr> dialogs := dialogs sE + 1 \<rparr>)"
  have fs: "fst (startPythonService ev sA)"
    using start_bundled_dev [OF dev built spawn, of sA] by simp
  have sB: "pythonProcess sB = Some (spawned s)" "spawned sB = spawned s + 1"
    "spawns (effects sB) = spawns (effects s) @ [spawned s]" "dialogs sB = dialogs s"
    using start_bundled_dev [OF dev built spawn, of sA] precheck_silent [OF pre]
    by (simp_all add: sB_def sA_def)
  have fc: "\<not> fst (connectToExistingService ev 20 sB)"
    using down by (rule connect_never_ok)
  have "extends is_probing (effects sB) (effects sC)"
    unfolding sC_def by (rule connect_extends) simp
  then have "spawns (effects sC) = spawns (effects sB)"
    by (rule extends_spawns) (simp add: is_probing_cases)
  then have sC: "spawned sC = spawned s + 1" "spawns (effects sC) = spawns (effects s) @ [spawned s]"
    "dialogs sC = dialogs s"
    using sB by (simp_all add: sC_def)
  have choice: "dialogChoice ev (dialogs sE) = 0"
    using again sC by (simp add: sE_def)
  have "autoStartAndConnect ev s = showServiceConnectionOptions ev sE"
    unfolding eq sA_def [symmetric] sE_def sC_def sB_def
    using fs fc [unfolded sB_def] by (rule start_then_connect_not_connected)
  then have fin: "autoStartAndConnect ev s = snd (startPythonService ev sD)"
    using choice by (simp add: options_cases [OF sD_def])
  have sD: "spawned sD = spawned s + 1" "spawns (effects sD) = spawns (effects s) @ [spawned s]"
    using sC by (simp_all add: sD_def sE_def)
  have fd: "fst (startPythonService ev sD)"
    using start_bundled_dev [OF dev built spawn, of sD] by simp
  have "pythonProcess (autoStartAndConnect ev s) = Some (spawned s + 1)"
    "spawns (effects (autoStartAndConnect ev s)) = spawns (effects s) @ [spawned s, spawned s + 1]"
    using sD unfolding fin start_bundled_dev [OF dev built spawn, of sD] by simp_all
  then show ?thesis by (simp add: autoStart_kills)
qed

text \<open>
  C3, as stated, fails: after a launch whose service never becomes ready, the retry
  from the recovery dialog spawns a second child while the first was never killed; the
  orchestrator then refers to the second child only.
\<close>

theorem retry_second_process_counterexample:
  "spawns (effects (autoStartAndConnect env_never_ready windowed)) = [0, 1] \<and>
   kills (effects (autoStartAndConnect env_never_ready windowed)) = [] \<and>
   pythonProcess (autoStartAndConnect env_never_ready windowed) = Some 1"
proof -
  have "pythonProcess (autoStartAndConnect env_never_ready windowed) = Some (spawned windowed + 1) \<and>
    spawns (effects (autoStartAndConnect env_never_ready windowed)) =
      spawns (effects windowed) @ [spawned windowed, spawned windowed + 1] \<and>
    kills (effects (autoStartAndConnect env_never_ready windowed)) = kills (effects windowed)"
    by (rule retry_spawns_again)
       (simp_all add: env_never_ready_def env_bare_def refused_def executablePath_def
          executableName_def projectRoot_def path_join_def dev_root_def)
  then show ?thesis
    by (simp add: windowed_def init_def)
qed

subsection \<open>Nothing to launch\<close>

lemma options_nothing_found:
  assumes "\<not> existsSync ev (executablePath ev)"
    and "\<not> existsSync ev (venvPython ev) \<or> \<not> existsSync ev (serviceScript ev)"
  shows "spawn_attempts (effects (showServiceConnectionOptions ev s)) = spawn_attempts (effects s) \<and>
    spawned (showServiceConnectionOptions ev s) = spawned s \<and>
    pythonProcess (showServiceConnectionOptions ev s) = pythonProcess s"
proof -
  define s0 where "s0 = emit (ShowMessageBox (dialogChoice ev (dialogs s))) (s\<lparr> dialogs := dialogs s + 1 \<rparr>)"
  have s0: "spawn_attempts (effects s0) = spawn_attempts (effects s)" "spawned s0 = spawned s"
    "pythonProcess s0 = pythonProcess s"
    by (simp_all add: s0_def)
  obtain logs where logs: "list_all is_console logs"
    and st: "startPythonService ev s0 = (False, s0\<lparr> effects := effects s0 @ logs @ [launch_failure ev] \<rparr>)"
    using start_nothing_found [OF assms, of s0] by blast
  have a: "spawn_attempts (effects (snd (startPythonService ev s0))) = spawn_attempts (effects s0) \<and>
      spawned (snd (startPythonService ev s0)) = spawned s0 \<and>
      pythonProcess (snd (startPythonService ev s0)) = pythonProcess s0"
    using console_silent [OF logs] console_silent [of "[launch_failure ev]"] launch_failure_console [of ev]
    by (simp add: st)
  have "spawn_attempts (effects (snd (connectToExistingService ev 10 s0))) = spawn_attempts (effects s0)"
    by (rule extends_spawn_attempts [OF connect_extends [OF extends_refl]]) (simp add: is_probing_cases)
  then have b: "spawn_attempts (effects (snd (connectToExistingService ev 10 s0))) = spawn_attempts (effects s0) \<and>
      spawned (snd (connectToExistingService ev 10 s0)) = spawned s0 \<and>
      pythonProcess (snd (connectToExistingService ev 10 s0)) = pythonProcess s0"
    by simp
  have c: "spawn_attempts (effects (showServiceError ev s0)) = spawn_attempts (effects s0) \<and>
      spawned (showServiceError ev s0) = spawned s0 \<and>
      pythonProcess (showServiceError ev s0) = pythonProcess s0"
    by (simp add: showServiceError_def)
  show ?thesis
    unfolding options_cases [OF s0_def] using a b c s0 by simp
qed

text \<open>
  C9. If the pre-check fails, the bundled executable is absent and an interpreter or
  entry point of the fallback is missing, then the cycle makes no spawn attempt at all
  and leaves the process handle as it was; it reports the error that names the missing
  path on the console and ends in the recovery dialog, shown once.
\<close>

theorem nothing_found_no_spawn:
  assumes "\<not> is_ok (http ev (requests s))"
    and "\<not> existsSync ev (executablePath ev)"
    and "\<not> existsSync ev (venvPython ev) \<or> \<not> existsSync ev (serviceScript ev)"
  shows "spawn_attempts (effects (autoStartAndConnect ev s)) = spawn_attempts (effects s) \<and>
    spawned (autoStartAndConnect ev s) = spawned s \<and>
    pythonProcess (autoStartAndConnect ev s) = pythonProcess s \<and>
    launch_failure ev \<in> set (effects (autoStartAndConnect ev s)) \<and>
    prompts (effects (autoStartAndConnect ev s)) = prompts (effects s) + 1"
proof -
  obtain pre where pre: "list_all is_precheck pre"
    and eq: "autoStartAndConnect ev s =
       start_then_connect ev (s\<lparr> requests := requests s + 1, effects := effects s @ pre \<rparr>)"
    using autoStart_precheck_fails [of ev s] assms(1) by blast
  define sA where "sA = s\<lparr> requests := requests s + 1, effects := effects s @ pre \<rparr>"
  obtain logs where logs: "list_all is_console logs"
    and st: "startPythonService ev sA = (False, sA\<lparr> effects := effects sA @ logs @ [launch_failure ev] \<rparr>)"
    using start_nothing_found [OF assms(2,3), of sA] by blast
  define sE where "sE = emit (ConsoleError [S ''Failed to start Python service automatically''] None)
      (snd (startPythonService ev sA))"
  have sE: "spawn_attempts (effects sE) = spawn_attempts (effects s)" "spawned sE = spawned s"
    "pythonProcess sE = pythonProcess s" "launch_failure ev \<in> set (effects sE)"
    "prompts (effects sE) = prompts (effects s)"
    using console_silent [OF logs] console_silent [of "[launch_failure ev]"] launch_failure_console [of ev]
      precheck_silent [OF pre]
    unfolding sE_def st by (simp_all add: sA_def)
  have fin: "autoStartAndConnect ev s = showServiceConnectionOptions ev sE"
    unfolding eq sA_def [symmetric] sE_def
    by (rule start_then_connect_not_started) (simp add: st)
  have "set (effects sE) \<subseteq> set (effects (showServiceConnectionOptions ev sE))"
    using options_extends [OF extends_refl] by (rule extends_set)
  then show ?thesis
    unfolding fin using options_nothing_found [OF assms(2,3), of sE] options_prompts [of ev sE] sE
    by auto
qed

theorem nothing_found_no_spawn_witness:
  "\<not> is_ok (http env_bare (requests windowed)) \<and>
   \<not> existsSync env_bare (executablePath env_bare) \<and>
   \<not> existsSync env_bare (venvPython env_bare) \<and>
   spawn_attempts (effects (autoStartAndConnect env_bare windowed)) = 0 \<and>
   pythonProcess (autoStartAndConnect env_bare windowed) = None \<and>
   ConsoleError [S ''Failed to start venv Python service:'']
     (Some (Error [S ''Venv Python executable not found at: '',
                   P [''home'', ''dev'', ''covenantrix-v2'', ''venv'', ''bin'', ''python'']]))
     \<in> set (effects (autoStartAndConnect env_bare windowed)) \<and>
   prompts (effects (autoStartAndConnect env_bare windowed)) = 1"
proof -
  have h1: "\<not> is_ok (http env_bare (requests windowed))"
    by (simp add: env_bare_def refused_def)
  have h2: "\<not> existsSync env_bare (executablePath env_bare)"
    by (simp add: env_bare_def)
  have h3: "\<not> existsSync env_bare (venvPython env_bare) \<or> \<not> existsSync env_bare (serviceScript env_bare)"
    by (simp add: env_bare_def)
  have lf: "launch_failure env_bare =
      ConsoleError [S ''Failed to start venv Python service:'']
        (Some (Error [S ''Venv Python executable not found at: '',
                   P [''home'', ''dev'', ''covenantrix-v2'', ''venv'', ''bin'', ''python'']]))"
    by (simp add: launch_failure_def venvPython_def projectRoot_def path_join_def env_bare_def dev_root_def)
  show ?thesis
    using nothing_found_no_spawn [OF h1 h2 h3] h1 h2 lf
    by (simp add: windowed_def init_def env_bare_def)
qed

subsection \<open>Ownership of child processes\<close>

lemma owns_disconnect: "owns_only_spawned s \<Longrightarrow> owns_only_spawned (disconnectFromService s)"
  by (auto simp: disconnectFromService_def leaving_it_running_def owns_only_spawned_def
      list_all_iff split: option.splits)

lemma carries_on_iff:
  "carries_on s s' \<longleftrightarrow>
     kills (effects s') = kills (effects s) \<and>
     (\<exists>hs. handles (effects s') = handles (effects s) @ hs \<and>
        (pythonProcess s' = pythonProcess s \<or> (\<exists>p\<in>set hs. pythonProcess s' = Some p)))"
proof
  assume c: "carries_on s s'"
  then have "handles (effects s') =
      handles (effects s) @ drop (length (handles (effects s))) (handles (effects s'))"
    unfolding carries_on_def by (metis append_take_drop_id)
  with c show "kills (effects s') = kills (effects s) \<and>
     (\<exists>hs. handles (effects s') = handles (effects s) @ hs \<and>
        (pythonProcess s' = pythonProcess s \<or> (\<exists>p\<in>set hs. pythonProcess s' = Some p)))"
    unfolding carries_on_def by (cases "pythonProcess s'") auto
next
  assume "kills (effects s') = kills (effects s) \<and>
     (\<exists>hs. handles (effects s') = handles (effects s) @ hs \<and>
        (pythonProcess s' = pythonProcess s \<or> (\<exists>p\<in>set hs. pythonProcess s' = Some p)))"
  then show "carries_on s s'"
    unfolding carries_on_def by auto
qed

lemma carries_on_refl [simp]: "carries_on s s"
  by (simp add: carries_on_iff)

lemma carries_on_trans: "carries_on s t \<Longrightarrow> carries_on t u \<Longrightarrow> carries_on s u"
  unfolding carries_on_iff by (elim conjE exE) auto

lemma carries_on_same:
  "effects s' = effects s \<Longrightarrow> pythonProcess s' = pythonProcess s \<Longrightarrow> carries_on s s'"
  by (simp add: carries_on_iff)

lemma carries_on_emit: "kill_of e = [] \<Longrightarrow> handle_of e = [] \<Longrightarrow> carries_on s (emit e s)"
  by (simp add: carries_on_iff)

lemma carries_on_start: "carries_on s (snd (startPythonService ev s))"
  using start_outcome [of ev s] unfolding carries_on_iff
  by (auto split: if_splits)

lemma owns_carries_on: "owns_only_spawned s \<Longrightarrow> carries_on s s' \<Longrightarrow> owns_only_spawned s'"
  unfolding carries_on_iff owns_only_spawned_def
  by (auto simp: list_all_iff split: option.splits)

subsection \<open>The pieces of the machine\<close>

lemma suspend_fields [simp]:
  "effects (suspend task s) = effects s"
  "pythonProcess (suspend task s) = pythonProcess s"
  "mainWindow (suspend task s) = mainWindow s"
  "serviceUrl (suspend task s) = serviceUrl s"
  "requests (suspend task s) = requests s"
  "spawned (suspend task s) = spawned s"
  "dialogs (suspend task s) = dialogs s"
  "pending (suspend task s) = pending s @ [task]"
  by (simp_all add: suspend_def)

lemma carries_on_connect_next: "carries_on s (connect_next n k s)"
  by (cases n; cases k)
     (simp_all add: connect_next_def connect_failed_def open_dialog_def carries_on_iff)

lemma carries_on_connect_begin: "carries_on s (connect_begin n k s)"
  unfolding connect_begin_def
  by (rule carries_on_trans [OF _ carries_on_connect_next])
     (simp add: carries_on_emit)

lemma carries_on_showServiceError: "carries_on s (showServiceError ev s)"
  by (simp add: showServiceError_def carries_on_emit)

lemma carries_on_launch_then_connect: "carries_on s (launch_then_connect ev s)"
proof -
  obtain b s1 where st: "startPythonService ev s = (b, s1)" by fastforce
  then have s1: "s1 = snd (startPythonService ev s)" by simp
  have a: "carries_on s s1"
    unfolding s1 by (rule carries_on_start)
  show ?thesis
  proof (cases b)
    case True
    then show ?thesis
      using carries_on_trans [OF a carries_on_connect_begin]
      by (simp add: launch_then_connect_def st)
  next
    case False
    have "carries_on s1
        (open_dialog (emit (ConsoleError [S ''Failed to start Python service automatically''] None) s1))"
      by (simp add: open_dialog_def carries_on_iff)
    with False show ?thesis
      using carries_on_trans [OF a] by (simp add: launch_then_connect_def st)
  qed
qed

lemma carries_on_api_settle: "carries_on s (snd (api_settle ev config r s))"
  by (cases r; cases "axiosRejects ev config")
     (simp_all add: api_settle_def Let_def carries_on_iff)

lemma carries_on_upload_settle: "carries_on s (snd (upload_settle ev p folder r s))"
  by (cases r; cases "open_error ev p")
     (simp_all add: upload_settle_def Let_def carries_on_iff)

lemma carries_on_precheck: "carries_on s (settle ev AwaitPrecheck (Answered r) s)"
proof -
  define s1 where "s1 = emit (AxiosGet (serviceUrl s @ ''/health'') 2000 r) (s\<lparr> requests := requests s + 1 \<rparr>)"
  define s2 where "s2 = emit (ConsoleLog [S ''Service already running, connecting...'']) s1"
  have c1: "carries_on s s1" and c2: "carries_on s s2"
    by (simp_all add: s1_def s2_def carries_on_iff)
  have n1: "carries_on s (launch_then_connect ev
      (emit (ConsoleLog [S ''Service not running, starting automatically...'']) s1))"
    by (rule carries_on_trans [OF _ carries_on_launch_then_connect])
       (simp add: s1_def carries_on_iff)
  have n2: "carries_on s (launch_then_connect ev
      (emit (ConsoleLog [S ''Service not running, starting automatically...'']) s2))"
    by (rule carries_on_trans [OF _ carries_on_launch_then_connect])
       (simp add: s1_def s2_def carries_on_iff)
  have n0: "carries_on s (launch_then_connect ev s1)"
    by (rule carries_on_trans [OF c1 carries_on_launch_then_connect])
  have s3: "carries_on s (emit (Send ''service-ready'' (serviceUrl s)) s2)"
    by (simp add: s1_def s2_def carries_on_iff)
  show ?thesis
  proof (cases r)
    case (Rejected msg st)
    then show ?thesis
      using n1 by (simp add: s1_def Let_def)
  next
    case (Resolved status body)
    show ?thesis
    proof (cases "status = 200")
      case False
      with Resolved show ?thesis
        using n0 by (simp add: s1_def Let_def)
    next
      case True
      with Resolved show ?thesis
        using n2 s3
        by (cases "mainWindow s")
           (simp_all add: s1_def [symmetric] s2_def [symmetric] webContents_send_def Let_def,
            simp_all add: s1_def s2_def)
    qed
  qed
qed

lemma carries_on_probe: "carries_on s (settle ev (AwaitProbe n k) (Answered r) s)"
proof -
  define s1 where "s1 = emit (AxiosGet (serviceUrl s @ ''/health'') 1000 r) (s\<lparr> requests := requests s + 1 \<rparr>)"
  have c1: "carries_on s s1"
    by (simp add: s1_def carries_on_iff)
  have nx: "carries_on s (connect_next n k s1)"
    by (rule carries_on_trans [OF c1 carries_on_connect_next])
  show ?thesis
  proof (cases r)
    case (Rejected msg st)
    then show ?thesis
      by (simp add: Let_def carries_on_iff)
  next
    case (Resolved status body)
    show ?thesis
    proof (cases "status = 200")
      case False
      with Resolved show ?thesis
        using nx by (simp add: s1_def Let_def)
    next
      case True
      with Resolved show ?thesis
        by (cases "mainWindow s") (simp_all add: webContents_send_def Let_def carries_on_iff)
    qed
  qed
qed

lemma carries_on_dialog: "carries_on s (settle ev AwaitDialog (Pressed response) s)"
proof -
  define s0 where "s0 = emit (ShowMessageBox response) (s\<lparr> dialogs := dialogs s + 1 \<rparr>)"
  have c0: "carries_on s s0"
    by (simp add: s0_def carries_on_iff)
  have "carries_on s (snd (startPythonService ev s0))"
    "carries_on s (showServiceError ev s0)"
    "carries_on s (connect_begin 10 ThenReturn s0)"
    using carries_on_trans [OF c0 carries_on_start]
      carries_on_trans [OF c0 carries_on_showServiceError]
      carries_on_trans [OF c0 carries_on_connect_begin] by blast+
  then show ?thesis
    using c0 by (auto simp: s0_def Let_def)
qed

lemma carries_on_settle: "carries_on s (settle ev task a s)"
proof (cases a)
  case (Answered r)
  then show ?thesis
    by (cases task)
       (simp_all add: carries_on_precheck carries_on_probe carries_on_api_settle
          carries_on_upload_settle del: settle.simps(1,2))
next
  case Elapsed
  then show ?thesis
    by (cases task)
       (simp_all add: carries_on_trans [OF carries_on_emit carries_on_connect_next])
next
  case (Pressed response)
  then show ?thesis
    by (cases task) (simp_all add: carries_on_dialog del: settle.simps(4))
qed

text \<open>Every event but the two that disconnect carries on.\<close>

lemma carries_on_step: "\<not> is_disconnect e \<Longrightarrow> carries_on s (step ev s e)"
proof (cases e)
  case (Settle i a)
  have "carries_on s (s\<lparr> pending := take i (pending s) @ drop (Suc i) (pending s) \<rparr>)"
    by (rule carries_on_same) simp_all
  then have "carries_on s (settle ev (pending s ! i) a
      (s\<lparr> pending := take i (pending s) @ drop (Suc i) (pending s) \<rparr>))"
    using carries_on_settle by (rule carries_on_trans)
  then show ?thesis
    using Settle by simp
next
  case (UploadFile filePath folderId)
  then show ?thesis
    by (cases filePath) (simp_all add: upload_refused_def carries_on_iff)
qed (simp_all add: carries_on_iff pythonProcess_on_exit_def pythonProcess_on_exit_venv_def
      pythonProcess_on_error_def pythonProcess_on_error_venv_def split: option.splits)

lemma kills_step:
  "kills (effects (step ev s e)) = kills (effects s) @ (if is_disconnect e then held s else [])"
proof (cases "is_disconnect e")
  case False
  then show ?thesis
    using carries_on_step [of e s ev] by (simp add: carries_on_iff)
next
  case True
  then have "step ev s e = disconnectFromService s"
    by (cases e) simp_all
  with True show ?thesis
    by (simp add: disconnectFromService_def leaving_it_running_def held_def split: option.splits)
qed

lemma owns_step: "owns_only_spawned s \<Longrightarrow> owns_only_spawned (step ev s e)"
proof (cases "is_disconnect e")
  case False
  assume "owns_only_spawned s"
  then show ?thesis
    using carries_on_step [OF False] by (rule owns_carries_on)
next
  case True
  then have "step ev s e = disconnectFromService s"
    by (cases e) simp_all
  moreover assume "owns_only_spawned s"
  ultimately show ?thesis
    by (simp add: owns_disconnect)
qed

lemma owns_run: "owns_only_spawned s \<Longrightarrow> owns_only_spawned (run ev evs s)"
  unfolding run_def by (induction evs arbitrary: s) (simp_all add: owns_step)

subsection \<open>Scenarios of the machine\<close>

lemma precheck_ready:
  "is_ok r \<Longrightarrow> mainWindow s = Some w \<Longrightarrow>
   settle ev AwaitPrecheck (Answered r) s =
     emit (Send ''service-ready'' (serviceUrl s))
       (emit (ConsoleLog [S ''Service already running, connecting...''])
         (emit (AxiosGet (serviceUrl s @ ''/health'') 2000 r) (s\<lparr> requests := requests s + 1 \<rparr>)))"
  by (cases r) (simp_all add: Let_def webContents_send_def)

lemma probe_ready:
  "is_ok r \<Longrightarrow> mainWindow s = Some w \<Longrightarrow>
   settle ev (AwaitProbe n k) (Answered r) s =
     emit (Send ''service-ready'' (serviceUrl s))
       (emit (ConsoleLog [S ''Connected to Python service successfully!''])
         (emit (AxiosGet (serviceUrl s @ ''/health'') 1000 r) (s\<lparr> requests := requests s + 1 \<rparr>)))"
  by (cases r) (simp_all add: Let_def webContents_send_def)

lemma launch_then_connect_started:
  assumes "\<not> isPackaged ev" and "existsSync ev (executablePath ev)"
    and "spawnOutcome ev (spawned s) = Started"
  shows "pythonProcess (launch_then_connect ev s) = Some (spawned s)"
    and "pending (launch_then_connect ev s) = pending s @ [AwaitProbe 19 ThenRecover]"
    and "mainWindow (launch_then_connect ev s) = mainWindow s"
    and "serviceUrl (launch_then_connect ev s) = serviceUrl s"
    and "spawns (effects (launch_then_connect ev s)) = spawns (effects s) @ [spawned s]"
    and "kills (effects (launch_then_connect ev s)) = kills (effects s)"
    and "prompts (effects (launch_then_connect ev s)) = prompts (effects s)"
  by (simp_all add: launch_then_connect_def start_bundled_dev [OF assms] connect_begin_def
      connect_next_def)

text \<open>
  The pre-check is answered, but not with 200, or the window is gone when the answer
  comes: the bundled executable is launched and the patient probe begins.
\<close>

lemma precheck_launches:
  assumes dev: "\<not> isPackaged ev" and built: "existsSync ev (executablePath ev)"
    and spawn: "spawnOutcome ev (spawned s) = Started"
    and pre: "\<not> is_ok r \<or> mainWindow s = None"
  shows "pythonProcess (settle ev AwaitPrecheck (Answered r) s) = Some (spawned s)"
    and "pending (settle ev AwaitPrecheck (Answered r) s) = pending s @ [AwaitProbe 19 ThenRecover]"
    and "mainWindow (settle ev AwaitPrecheck (Answered r) s) = mainWindow s"
    and "serviceUrl (settle ev AwaitPrecheck (Answered r) s) = serviceUrl s"
    and "spawns (effects (settle ev AwaitPrecheck (Answered r) s)) = spawns (effects s) @ [spawned s]"
    and "kills (effects (settle ev AwaitPrecheck (Answered r) s)) = kills (effects s)"
    and "prompts (effects (settle ev AwaitPrecheck (Answered r) s)) = prompts (effects s)"
proof -
  define s1 where "s1 = emit (AxiosGet (serviceUrl s @ ''/health'') 2000 r) (s\<lparr> requests := requests s + 1 \<rparr>)"
  define s2 where "s2 = emit (ConsoleLog [S ''Service already running, connecting...'']) s1"
  define log where "log = ConsoleLog [S ''Service not running, starting automatically...'']"
  have "settle ev AwaitPrecheck (Answered r) s = launch_then_connect ev s1 \<or>
      settle ev AwaitPrecheck (Answered r) s = launch_then_connect ev (emit log s1) \<or>
      settle ev AwaitPrecheck (Answered r) s = launch_then_connect ev (emit log s2)"
    using pre
    by (cases r) (auto simp: Let_def webContents_send_def s1_def s2_def log_def)
  moreover have "spawnOutcome ev (spawned s1) = Started"
    "spawnOutcome ev (spawned (emit log s1)) = Started"
    "spawnOutcome ev (spawned (emit log s2)) = Started"
    using spawn by (simp_all add: s1_def s2_def)
  ultimately consider t where "settle ev AwaitPrecheck (Answered r) s = launch_then_connect ev t"
    "spawnOutcome ev (spawned t) = Started" "spawned t = spawned s" "pending t = pending s"
    "mainWindow t = mainWindow s" "serviceUrl t = serviceUrl s"
    "spawns (effects t) = spawns (effects s)" "kills (effects t) = kills (effects s)"
    "prompts (effects t) = prompts (effects s)"
    by (elim disjE) (simp_all add: s1_def s2_def log_def)
  then show "pythonProcess (settle ev AwaitPrecheck (Answered r) s) = Some (spawned s)"
    and "pending (settle ev AwaitPrecheck (Answered r) s) = pending s @ [AwaitProbe 19 ThenRecover]"
    and "mainWindow (settle ev AwaitPrecheck (Answered r) s) = mainWindow s"
    and "serviceUrl (settle ev AwaitPrecheck (Answered r) s) = serviceUrl s"
    and "spawns (effects (settle ev AwaitPrecheck (Answered r) s)) = spawns (effects s) @ [spawned s]"
    and "kills (effects (settle ev AwaitPrecheck (Answered r) s)) = kills (effects s)"
    and "prompts (effects (settle ev AwaitPrecheck (Answered r) s)) = prompts (effects s)"
    using launch_then_connect_started [OF dev built] by (cases; simp)+
qed

lemma cold_start_env:
  "\<not> isPackaged env_cold_start" "existsSync env_cold_start (executablePath env_cold_start)"
  "spawnOutcome env_cold_start n = Started"
  by (simp_all add: env_cold_start_def env_bare_def executablePath_def executableName_def
      projectRoot_def path_join_def dev_root_def)

text \<open>
  A cold start of the machine: the pre-check is refused, the bundled executable is
  launched as child 0, and the first probe after the launch is answered with 200.
\<close>

lemma ready_state_facts:
  "pythonProcess ready_state = Some 0"
  "last (effects ready_state) = Send ''service-ready'' ''http://127.0.0.1:8080''"
  "prompts (effects ready_state) = 0"
proof -
  define sb where "sb = (emit (ConsoleLog [S ''Auto-starting Covenantrix service...'']) windowed)"
  define sc where "sc = settle env_cold_start AwaitPrecheck (Answered refused) sb"
  have b: "run env_cold_start [CreateWindow 1, ReadyToShow] init = suspend AwaitPrecheck sb"
    by (simp add: run_def sb_def windowed_def)
  have sb: "spawned sb = 0" "pending sb = []" "mainWindow sb = Some 1"
    "serviceUrl sb = ''http://127.0.0.1:8080''" "prompts (effects sb) = 0"
    by (simp_all add: sb_def windowed_def init_def)
  have p: "sb\<lparr> pending := [] \<rparr> = sb"
    by (simp add: sb_def windowed_def init_def emit_def)
  have c: "step env_cold_start (suspend AwaitPrecheck sb) (Settle 0 (Answered refused)) = sc"
    by (simp add: sc_def sb suspend_def p del: settle.simps)
  have sc: "pythonProcess sc = Some 0" "pending sc = [AwaitProbe 19 ThenRecover]"
    "mainWindow sc = Some 1" "serviceUrl sc = ''http://127.0.0.1:8080''"
    "prompts (effects sc) = 0"
    unfolding sc_def
    using precheck_launches [of env_cold_start sb refused] cold_start_env sb
    by (simp_all add: refused_def)
  define sd where "sd = sc\<lparr> pending := [] \<rparr>"
  have d: "step env_cold_start sc (Settle 0 (Answered healthy)) =
      settle env_cold_start (AwaitProbe 19 ThenRecover) (Answered healthy) sd"
    by (simp add: sc sd_def del: settle.simps)
  have r: "ready_state =
      emit (Send ''service-ready'' (serviceUrl sd))
       (emit (ConsoleLog [S ''Connected to Python service successfully!''])
         (emit (AxiosGet (serviceUrl sd @ ''/health'') 1000 healthy)
           (sd\<lparr> requests := requests sd + 1 \<rparr>)))"
    unfolding ready_state_def
    using b c d probe_ready [of healthy sd 1 env_cold_start 19 ThenRecover]
    by (simp add: run_def sd_def sc healthy_def del: settle.simps step.simps)
  show "pythonProcess ready_state = Some 0"
    "last (effects ready_state) = Send ''service-ready'' ''http://127.0.0.1:8080''"
    "prompts (effects ready_state) = 0"
    unfolding r using sc by (simp_all add: sd_def)
qed

text \<open>
  The window is closed while the pre-check is awaited. The answer, 200 though it is,
  finds no window to notify: the bundled executable is launched as child 0, and
  \<open>before-quit\<close> terminates this child.
\<close>

lemma closed_during_precheck_run:
  "spawns (effects (run env_cold_start closed_during_precheck init)) = [0] \<and>
   kills (effects (run env_cold_start closed_during_precheck init)) = [0]"
proof -
  define sb where "sb = (emit (ConsoleLog [S ''Auto-starting Covenantrix service...'']) windowed)\<lparr> mainWindow := None \<rparr>"
  define sc where "sc = settle env_cold_start AwaitPrecheck (Answered healthy) sb"
  have b: "run env_cold_start [CreateWindow 1, ReadyToShow, Closed] init = suspend AwaitPrecheck sb"
    by (simp add: run_def sb_def windowed_def suspend_def)
  have sb: "spawned sb = 0" "pending sb = []" "mainWindow sb = None"
    "spawns (effects sb) = []" "kills (effects sb) = []"
    by (simp_all add: sb_def windowed_def init_def)
  have p: "sb\<lparr> pending := [] \<rparr> = sb"
    by (simp add: sb_def windowed_def init_def emit_def)
  have c: "step env_cold_start (suspend AwaitPrecheck sb) (Settle 0 (Answered healthy)) = sc"
    by (simp add: sc_def sb suspend_def p del: settle.simps)
  have sc: "pythonProcess sc = Some 0" "spawns (effects sc) = [0]" "kills (effects sc) = []"
    unfolding sc_def
    using precheck_launches [of env_cold_start sb healthy] cold_start_env sb
    by simp_all
  have "run env_cold_start closed_during_precheck init = disconnectFromService sc"
    using b c by (simp add: run_def closed_during_precheck_def del: settle.simps step.simps(1,2,3,12))
  then show ?thesis
    using sc by (simp add: disconnectFromService_def)
qed

text \<open>
  C8. The orchestrator only ever terminates processes it spawned itself. In every
  execution, however the events interleave with the answers to the awaited calls, every
  handle that \<open>disconnectFromService\<close> has killed and the handle held in \<open>pythonProcess\<close>
  were returned by a \<open>spawn\<close> of the orchestrator; as long as no \<open>spawn\<close> has returned a
  handle, nothing has been killed and no handle is held. When the pre-check at startup
  finds the service already listening, and the window is there to be told, the
  orchestrator sends the ready notification and does nothing else: it spawns nothing,
  takes no handle and kills nothing, so the service it has found is never a process it
  owns.
\<close>

theorem only_own_children_killed:
  "owns_only_spawned (run ev evs init) \<and>
   (handles (effects (run ev evs init)) = [] \<longrightarrow>
      kills (effects (run ev evs init)) = [] \<and> pythonProcess (run ev evs init) = None) \<and>
   (i < length (pending s) \<and> pending s ! i = AwaitPrecheck \<and> is_ok r \<and> mainWindow s \<noteq> None \<longrightarrow>
      effects (step ev s (Settle i (Answered r))) =
        effects s @
          [AxiosGet (serviceUrl s @ ''/health'') 2000 r,
           ConsoleLog [S ''Service already running, connecting...''],
           Send ''service-ready'' (serviceUrl s)] \<and>
      handles (effects (step ev s (Settle i (Answered r)))) = handles (effects s) \<and>
      kills (effects (step ev s (Settle i (Answered r)))) = kills (effects s) \<and>
      pythonProcess (step ev s (Settle i (Answered r))) = pythonProcess s)"
proof -
  have "owns_only_spawned init"
    by (simp add: owns_only_spawned_def init_def)
  then have a: "owns_only_spawned (run ev evs init)"
    by (rule owns_run)
  then have b: "kills (effects (run ev evs init)) = [] \<and> pythonProcess (run ev evs init) = None"
    if "handles (effects (run ev evs init)) = []"
    using that unfolding owns_only_spawned_def
    by (cases "kills (effects (run ev evs init))"; cases "pythonProcess (run ev evs init)") simp_all
  have c: "effects (step ev s (Settle i (Answered r))) =
        effects s @
          [AxiosGet (serviceUrl s @ ''/health'') 2000 r,
           ConsoleLog [S ''Service already running, connecting...''],
           Send ''service-ready'' (serviceUrl s)] \<and>
      handles (effects (step ev s (Settle i (Answered r)))) = handles (effects s) \<and>
      kills (effects (step ev s (Settle i (Answered r)))) = kills (effects s) \<and>
      pythonProcess (step ev s (Settle i (Answered r))) = pythonProcess s"
    if h: "i < length (pending s)" "pending s ! i = AwaitPrecheck" "is_ok r" "mainWindow s \<noteq> None"
  proof -
    obtain w where w: "mainWindow s = Some w"
      using h(4) by blast
    define s0 where "s0 = s\<lparr> pending := take i (pending s) @ drop (Suc i) (pending s) \<rparr>"
    have "step ev s (Settle i (Answered r)) = settle ev AwaitPrecheck (Answered r) s0"
      using h(1,2) by (simp add: s0_def del: settle.simps)
    then show ?thesis
      using precheck_ready [of r s0 w ev] h(3) w by (simp add: s0_def del: settle.simps)
  qed
  show ?thesis
    using a b c by blast
qed

theorem only_own_children_killed_witness:
  "handles (effects (run env_listening [CreateWindow 1, ReadyToShow] init)) = [] \<and>
   0 < length (pending (run env_listening [CreateWindow 1, ReadyToShow] init)) \<and>
   pending (run env_listening [CreateWindow 1, ReadyToShow] init) ! 0 = AwaitPrecheck \<and>
   is_ok healthy \<and>
   mainWindow (run env_listening [CreateWindow 1, ReadyToShow] init) \<noteq> None \<and>
   owns_only_spawned (run env_listening [CreateWindow 1, ReadyToShow] init) \<and>
   kills (effects (run env_listening [CreateWindow 1, ReadyToShow] init)) = [] \<and>
   pythonProcess (run env_listening [CreateWindow 1, ReadyToShow] init) = None \<and>
   effects (run env_listening [CreateWindow 1, ReadyToShow, Settle 0 (Answered healthy)] init) =
     [ConsoleLog [S ''Auto-starting Covenantrix service...''],
      AxiosGet ''http://127.0.0.1:8080/health'' 2000 healthy,
      ConsoleLog [S ''Service already running, connecting...''],
      Send ''service-ready'' ''http://127.0.0.1:8080''] \<and>
   pythonProcess (run env_listening [CreateWindow 1, ReadyToShow, Settle 0 (Answered healthy)] init) = None"
proof -
  define s where "s = run env_listening [CreateWindow 1, ReadyToShow] init"
  have s: "effects s = [ConsoleLog [S ''Auto-starting Covenantrix service...'']]"
    "pending s = [AwaitPrecheck]" "mainWindow s = Some 1" "pythonProcess s = None"
    "serviceUrl s = ''http://127.0.0.1:8080''"
    by (simp_all add: s_def run_def init_def)
  have r: "run env_listening [CreateWindow 1, ReadyToShow, Settle 0 (Answered healthy)] init =
      step env_listening s (Settle 0 (Answered healthy))"
    by (simp add: s_def run_def del: step.simps)
  have h: "is_ok healthy"
    by (simp add: healthy_def)
  have pre: "0 < length (pending s) \<and> pending s ! 0 = AwaitPrecheck \<and> is_ok healthy \<and>
      mainWindow s \<noteq> None"
    using s h by simp
  have hs: "handles (effects s) = []"
    using s by simp
  have "owns_only_spawned s \<and> kills (effects s) = [] \<and> pythonProcess s = None \<and>
      effects (step env_listening s (Settle 0 (Answered healthy))) =
        effects s @
          [AxiosGet (serviceUrl s @ ''/health'') 2000 healthy,
           ConsoleLog [S ''Service already running, connecting...''],
           Send ''service-ready'' (serviceUrl s)] \<and>
      pythonProcess (step env_listening s (Settle 0 (Answered healthy))) = pythonProcess s"
    using only_own_children_killed
        [of env_listening "[CreateWindow 1, ReadyToShow]" 0 s healthy, folded s_def] pre hs
    by blast
  then show ?thesis
    unfolding r s_def [symmetric] using pre hs s by (simp del: step.simps)
qed

text \<open>
  C3, amended. The orchestrator refers to at most one process handle at a time, the
  field \<open>pythonProcess\<close>, but the process behind a handle it drops may well be alive.
  A launch makes at most one call of \<open>spawn\<close>; a handle that the call returns, with a
  process behind it or without one, replaces the handle held before, which is not
  terminated. \<open>startPythonService\<close> returns \<open>true\<close> only when the call has returned a
  handle; when it returns \<open>false\<close> no handle was returned and the field is unchanged, or
  the handle returned had no streams to listen to. A child has been started exactly
  when \<open>startPythonService\<close> returns \<open>true\<close> and \<open>spawn\<close> started one. Launching
  performs no termination: \<open>startPythonService\<close>, the recovery dialog and the whole
  startup cycle kill nothing. In every execution \<open>kill()\<close> is called by
  \<open>disconnectFromService\<close> only, on \<open>window-all-closed\<close> and on \<open>before-quit\<close>, and for
  the handle then held.
\<close>

theorem startPythonService_ownership:
  "kills (effects (snd (startPythonService ev s))) = kills (effects s) \<and>
   (handles (effects (snd (startPythonService ev s))) = handles (effects s) \<or>
    handles (effects (snd (startPythonService ev s))) = handles (effects s) @ [spawned s]) \<and>
   pythonProcess (snd (startPythonService ev s)) =
     (if handles (effects (snd (startPythonService ev s))) = handles (effects s)
      then pythonProcess s else Some (spawned s)) \<and>
   (if fst (startPythonService ev s)
    then handles (effects (snd (startPythonService ev s))) = handles (effects s) @ [spawned s]
    else handles (effects (snd (startPythonService ev s))) = handles (effects s) \<or>
         spawnOutcome ev (spawned s) = NoStreams) \<and>
   spawns (effects (snd (startPythonService ev s))) =
     spawns (effects s) @
       (if fst (startPythonService ev s) \<and> spawnOutcome ev (spawned s) = Started
        then [spawned s] else []) \<and>
   kills (effects (showServiceConnectionOptions ev s)) = kills (effects s) \<and>
   kills (effects (autoStartAndConnect ev s)) = kills (effects s) \<and>
   kills (effects (step ev s e)) = kills (effects s) @ (if is_disconnect e then held s else [])"
  using start_outcome [of ev s] options_kills [of ev s] autoStart_kills [of ev s]
    kills_step [of ev s e]
  by (simp split: if_splits)

subsection \<open>Ready notifications and child exits\<close>

lemma ready_justified_append:
  "ready_justified b (t @ u) \<longleftrightarrow> ready_justified b t \<and> ready_justified (foldl probe_fresh b t) u"
  by (induction t arbitrary: b) simp_all

lemma ready_justified_silent:
  "list_all K u \<Longrightarrow> (\<And>e. K e \<Longrightarrow> \<not> is_ready e) \<Longrightarrow> ready_justified b u"
  by (induction u arbitrary: b) simp_all

lemma justified_extends:
  assumes "ready_justified b t" and "extends K t u" and "\<And>e. K e \<Longrightarrow> \<not> is_ready e"
  shows "ready_justified b u"
proof -
  obtain new where "u = t @ new" "list_all K new"
    using assms(2) by (auto simp: extends_iff)
  then show ?thesis
    using assms(1) ready_justified_silent [of K new, OF _ assms(3)]
    by (simp add: ready_justified_append)
qed

lemma justified_start:
  "ready_justified b (effects s) \<Longrightarrow> ready_justified b (effects (snd (startPythonService ev s)))"
  by (rule justified_extends [OF _ start_extends [OF extends_refl]]) (simp_all add: is_launching_cases)

lemma justified_connect_next:
  "ready_justified b (effects s) \<Longrightarrow> ready_justified b (effects (connect_next n k s))"
  by (cases n; cases k)
     (simp_all add: connect_next_def connect_failed_def open_dialog_def ready_justified_append)

lemma justified_connect_begin:
  "ready_justified b (effects s) \<Longrightarrow> ready_justified b (effects (connect_begin n k s))"
  unfolding connect_begin_def
  by (rule justified_connect_next) (simp add: ready_justified_append)

lemma justified_launch_then_connect:
  assumes "ready_justified b (effects s)"
  shows "ready_justified b (effects (launch_then_connect ev s))"
proof -
  obtain started s1 where st: "startPythonService ev s = (started, s1)" by fastforce
  then have s1: "s1 = snd (startPythonService ev s)" by simp
  have a: "ready_justified b (effects s1)"
    unfolding s1 using assms by (rule justified_start)
  show ?thesis
    using a justified_connect_begin [OF a, of 20 ThenRecover]
    by (cases started)
       (simp_all add: launch_then_connect_def st open_dialog_def ready_justified_append)
qed

lemma justified_precheck:
  assumes "ready_justified b (effects s)"
  shows "ready_justified b (effects (settle ev AwaitPrecheck (Answered r) s))"
proof -
  define s1 where "s1 = emit (AxiosGet (serviceUrl s @ ''/health'') 2000 r) (s\<lparr> requests := requests s + 1 \<rparr>)"
  define s2 where "s2 = emit (ConsoleLog [S ''Service already running, connecting...'']) s1"
  define log where "log = ConsoleLog [S ''Service not running, starting automatically...'']"
  have j: "ready_justified b (effects s1)" "ready_justified b (effects (emit log s1))"
    "ready_justified b (effects s2)" "ready_justified b (effects (emit log s2))"
    using assms by (simp_all add: s1_def s2_def log_def ready_justified_append)
  have l: "ready_justified b (effects (launch_then_connect ev s1))"
    "ready_justified b (effects (launch_then_connect ev (emit log s1)))"
    "ready_justified b (effects (launch_then_connect ev (emit log s2)))"
    using j by (simp_all add: justified_launch_then_connect)
  have ok: "ready_justified b (effects (emit (Send ''service-ready'' (serviceUrl s)) s2))" if "is_ok r"
    using assms that by (simp add: s1_def s2_def ready_justified_append)
  show ?thesis
  proof (cases r)
    case (Rejected msg st)
    then show ?thesis
      using l(2) by (simp add: s1_def log_def Let_def)
  next
    case (Resolved status body)
    show ?thesis
    proof (cases "status = 200")
      case False
      with Resolved show ?thesis
        using l(1) by (simp add: s1_def Let_def)
    next
      case True
      with Resolved have "is_ok r" by simp
      then show ?thesis
        using True Resolved l(3) ok
        by (cases "mainWindow s")
           (simp_all add: s1_def s2_def log_def webContents_send_def Let_def)
    qed
  qed
qed

lemma justified_probe_settled:
  assumes "ready_justified b (effects s)"
  shows "ready_justified b (effects (settle ev (AwaitProbe n k) (Answered r) s))"
proof (cases r)
  case (Rejected msg st)
  then show ?thesis
    using assms by (simp add: Let_def ready_justified_append)
next
  case (Resolved status body)
  then show ?thesis
    using assms
    by (cases "mainWindow s")
       (simp_all add: Let_def webContents_send_def ready_justified_append justified_connect_next)
qed

lemma justified_dialog:
  assumes "ready_justified b (effects s)"
  shows "ready_justified b (effects (settle ev AwaitDialog (Pressed response) s))"
proof -
  define s0 where "s0 = emit (ShowMessageBox response) (s\<lparr> dialogs := dialogs s + 1 \<rparr>)"
  have j: "ready_justified b (effects s0)"
    using assms by (simp add: s0_def ready_justified_append)
  then have "ready_justified b (effects (snd (startPythonService ev s0)))"
    "ready_justified b (effects (showServiceError ev s0))"
    "ready_justified b (effects (connect_begin 10 ThenReturn s0))"
    by (simp_all add: justified_start justified_connect_begin showServiceError_def
        ready_justified_append)
  then show ?thesis
    using j by (auto simp: s0_def Let_def)
qed

lemma justified_settle:
  assumes "ready_justified b (effects s)"
  shows "ready_justified b (effects (settle ev task a s))"
proof (cases a)
  case (Answered r)
  show ?thesis
  proof (cases task)
    case (AwaitApi config)
    then show ?thesis
      using assms Answered
      by (cases r; cases "axiosRejects ev config")
         (simp_all add: api_settle_def Let_def ready_justified_append)
  next
    case (AwaitUpload p folder)
    then show ?thesis
      using assms Answered
      by (cases r; cases "open_error ev p")
         (simp_all add: upload_settle_def Let_def ready_justified_append)
  qed (use assms Answered in \<open>simp_all add: justified_precheck justified_probe_settled
        del: settle.simps(1,2)\<close>)
next
  case Elapsed
  then show ?thesis
    using assms
    by (cases task) (simp_all add: justified_connect_next ready_justified_append)
next
  case (Pressed response)
  then show ?thesis
    using assms by (cases task) (simp_all add: justified_dialog del: settle.simps(4))
qed

lemma justified_step:
  "ready_justified b (effects s) \<Longrightarrow> ready_justified b (effects (step ev s e))"
proof (cases e)
  case (Settle i a)
  assume "ready_justified b (effects s)"
  then have "ready_justified b
      (effects (s\<lparr> pending := take i (pending s) @ drop (Suc i) (pending s) \<rparr>))"
    by simp
  then have "ready_justified b (effects (settle ev (pending s ! i) a
      (s\<lparr> pending := take i (pending s) @ drop (Suc i) (pending s) \<rparr>)))"
    by (rule justified_settle)
  then show ?thesis
    using Settle \<open>ready_justified b (effects s)\<close> by simp
next
  case (UploadFile filePath folderId)
  assume "ready_justified b (effects s)"
  then show ?thesis
    using UploadFile
    by (cases filePath) (simp_all add: upload_refused_def ready_justified_append)
next
  case WindowAllClosed
  assume "ready_justified b (effects s)"
  then show ?thesis
    using WindowAllClosed
    by (cases "pythonProcess s")
       (simp_all add: disconnectFromService_def leaving_it_running_def ready_justified_append)
next
  case BeforeQuit
  assume "ready_justified b (effects s)"
  then show ?thesis
    using BeforeQuit
    by (cases "pythonProcess s")
       (simp_all add: disconnectFromService_def leaving_it_running_def ready_justified_append)
qed (simp_all add: pythonProcess_on_exit_def pythonProcess_on_exit_venv_def
      pythonProcess_on_error_def pythonProcess_on_error_venv_def
      ready_justified_append split: option.splits)

lemma justified_run:
  "ready_justified b (effects s) \<Longrightarrow> ready_justified b (effects (run ev evs s))"
  unfolding run_def by (induction evs arbitrary: s) (simp_all add: justified_step)

lemma non_console_append [simp]: "non_console (t @ u) = non_console t @ non_console u"
  by (simp add: non_console_def)

text \<open>
  C1, as stated, fails: after a cold start that reached the ready notification with
  child 0 owned, the exit notification of the child shows no recovery dialog and changes
  nothing; the stale handle stays in place.
\<close>

theorem exit_while_ready_counterexample:
  "pythonProcess ready_state = Some 0 \<and>
   last (effects ready_state) = Send ''service-ready'' ''http://127.0.0.1:8080'' \<and>
   prompts (effects (step env_cold_start ready_state (ChildExit (Some 1) None))) = 0 \<and>
   non_console (effects (step env_cold_start ready_state (ChildExit (Some 1) None))) =
     non_console (effects ready_state) \<and>
   pythonProcess (step env_cold_start ready_state (ChildExit (Some 1) None)) = Some 0"
  using ready_state_facts
  by (simp add: pythonProcess_on_exit_def non_console_def)

text \<open>
  C1, amended. A process-exit notification for the child is only logged: it shows no
  recovery dialog, sends nothing to the window and changes no field, whatever the state
  of the connection. In every execution, a ready notification is sent only while a
  health probe is fresh, that is directly after a health request answered with status
  200, console output aside.
\<close>

theorem exit_only_logged:
  "step ev s (ChildExit code signal) =
     emit (ConsoleLog [S ''Python Service exited with code '', ExitCode code,
                       S '' and signal '', ExitSignal signal]) s \<and>
   step ev s (ChildExitVenv code signal) =
     emit (ConsoleLog [S ''Python Service (venv) exited with code '', ExitCode code,
                       S '' and signal '', ExitSignal signal]) s \<and>
   prompts (effects (step ev s (ChildExit code signal))) = prompts (effects s) \<and>
   prompts (effects (step ev s (ChildExitVenv code signal))) = prompts (effects s) \<and>
   non_console (effects (step ev s (ChildExit code signal))) = non_console (effects s) \<and>
   non_console (effects (step ev s (ChildExitVenv code signal))) = non_console (effects s) \<and>
   pythonProcess (step ev s (ChildExit code signal)) = pythonProcess s \<and>
   pythonProcess (step ev s (ChildExitVenv code signal)) = pythonProcess s \<and>
   ready_justified False (effects (run ev evs init))"
proof -
  have "ready_justified False (effects init)"
    by (simp add: init_def)
  then have "ready_justified False (effects (run ev evs init))"
    by (rule justified_run)
  then show ?thesis
    by (simp add: pythonProcess_on_exit_def pythonProcess_on_exit_venv_def non_console_def)
qed

subsection \<open>The bounds of the health probe\<close>

lemma recovery_timing:
  "list_all is_recovery u \<Longrightarrow>
   timeouts u = replicate (length (timeouts u)) 1000 \<and>
   sleeps u = replicate (length (sleeps u)) 1000"
proof (induction u)
  case Nil
  show ?case by simp
next
  case (Cons e u)
  then show ?case by (cases e) (simp_all add: is_recovery_def)
qed

lemma autoStart_timeouts:
  "\<exists>rest. timeouts (effects (autoStartAndConnect ev s)) = timeouts (effects s) @ 2000 # rest \<and>
     rest = replicate (length rest) 1000"
proof (cases "is_ok (http ev (requests s)) \<and> mainWindow s \<noteq> None")
  case True
  then obtain w where "is_ok (http ev (requests s))" "mainWindow s = Some w" by blast
  then show ?thesis by (simp add: autoStart_precheck_ok)
next
  case False
  then obtain pre where pre: "timeouts pre = [2000]"
    and eq: "autoStartAndConnect ev s =
       start_then_connect ev (s\<lparr> requests := requests s + 1, effects := effects s @ pre \<rparr>)"
    using autoStart_precheck_fails [of ev s] by blast
  define sA where "sA = s\<lparr> requests := requests s + 1, effects := effects s @ pre \<rparr>"
  obtain new where new: "effects (start_then_connect ev sA) = effects sA @ new" "list_all is_recovery new"
    using start_then_connect_extends [OF extends_refl, of sA ev] by (auto simp: extends_iff)
  have "timeouts (effects (autoStartAndConnect ev s)) = timeouts (effects s) @ 2000 # timeouts new"
    unfolding eq sA_def [symmetric] new(1) using pre by (simp add: sA_def)
  moreover have "timeouts new = replicate (length (timeouts new)) 1000"
    using recovery_timing [OF new(2)] by simp
  ultimately show ?thesis by blast
qed

text \<open>
  C5, amended. \<open>connectToExistingService\<close> always returns, after at most
  \<open>maxAttempts\<close> health requests, each with a hard timeout of 1000 ms, and at most as
  many waits, each of 1000 ms: the timeout equals the polling interval, and the whole
  step takes at most \<open>maxAttempts\<close> times 2000 ms (timeout plus interval). The
  pre-check of \<open>autoStartAndConnect\<close> is one request with a timeout of 2000 ms; every
  later request of the cycle has the timeout of 1000 ms.
\<close>

theorem health_probe_bounds:
  "(\<exists>k j. j \<le> k \<and> k \<le> maxAttempts \<and>
     timeouts (effects (snd (connectToExistingService ev maxAttempts s))) =
       timeouts (effects s) @ replicate k 1000 \<and>
     sleeps (effects (snd (connectToExistingService ev maxAttempts s))) =
       sleeps (effects s) @ replicate j 1000 \<and>
     budget (effects (snd (connectToExistingService ev maxAttempts s))) =
       budget (effects s) + (k + j) * 1000 \<and>
     budget (effects (snd (connectToExistingService ev maxAttempts s))) \<le>
       budget (effects s) + maxAttempts * 2000) \<and>
   (\<exists>rest. timeouts (effects (autoStartAndConnect ev s)) = timeouts (effects s) @ 2000 # rest \<and>
     rest = replicate (length rest) 1000)"
  using connect_timing [of maxAttempts ev s] autoStart_timeouts [of ev s] by blast

end
